theory Spec2Isabelle
  imports Main
begin

section \<open>Values of the plugin\<close>

text \<open>
  The plugin (\<^verbatim>\<open>src/main.py\<close>, class \<^verbatim>\<open>Plugin\<close>) keeps its settings in a Python
  dict whose values arrive from the host as JSON scalars. \<open>pyval\<close> is the type of those
  values, a dict is a map from keys to values.
\<close>

datatype pyval = PInt int | PBool bool | PStr string | PNone

type_synonym pydict = "string \<rightharpoonup> pyval"

text \<open>Python's \<^verbatim>\<open>==\<close> on these values: \<^verbatim>\<open>bool\<close> is a subclass of \<^verbatim>\<open>int\<close>,
  so \<^verbatim>\<open>True == 1\<close> and \<^verbatim>\<open>False == 0\<close>.\<close>

fun py_eq :: "pyval \<Rightarrow> pyval \<Rightarrow> bool" where
  "py_eq (PInt i) (PInt j) = (i = j)"
| "py_eq (PInt i) (PBool b) = (i = (if b then 1 else 0))"
| "py_eq (PBool b) (PInt i) = (i = (if b then 1 else 0))"
| "py_eq (PBool a) (PBool b) = (a = b)"
| "py_eq (PStr a) (PStr b) = (a = b)"
| "py_eq PNone PNone = True"
| "py_eq _ _ = False"

text \<open>Truth value of a Python value, as \<^verbatim>\<open>if v:\<close> tests it.\<close>

fun truthy :: "pyval \<Rightarrow> bool" where
  "truthy (PInt i) = (i \<noteq> 0)"
| "truthy (PBool b) = b"
| "truthy (PStr s) = (s \<noteq> [])"
| "truthy PNone = False"

text \<open>\<^verbatim>\<open>str(v)\<close>, as an f-string formats a value.\<close>

fun digits :: "nat \<Rightarrow> string" where
  "digits n = (if n < 10 then [''0123456789'' ! n]
               else digits (n div 10) @ [''0123456789'' ! (n mod 10)])"

declare digits.simps [simp del]

definition str_int :: "int \<Rightarrow> string" where
  "str_int i = (if i < 0 then CHR ''-'' # digits (nat (- i)) else digits (nat i))"

fun py_str :: "pyval \<Rightarrow> string" where
  "py_str (PInt i) = str_int i"
| "py_str (PBool b) = (if b then ''True'' else ''False'')"
| "py_str (PStr s) = s"
| "py_str PNone = ''None''"

text \<open>
  The latency of a ping status is the integer \<open>0\<close> or \<open>-1\<close>, or the float that
  \<^verbatim>\<open>float(text)\<close> makes of the numeral the regular expression captured. The
  rounding of \<^verbatim>\<open>float\<close> is not modelled: \<open>FloatOf text\<close> stands for that float.
\<close>

datatype pynum = IntNum int | FloatOf string

record ping_status =
  latency :: pynum
  status :: string
  timestamp :: int

datatype event =
    WifiStatusChanged bool
  | PingResult ping_status
  | WifiRestarted int string

datatype exn =
    KeyError string
  | OSError
  | JSONDecodeError
  | UnicodeDecodeError
  | TimeoutError
  | ProcessLookupError

datatype log_entry = Info string | Error string | ErrorExn string exn

section \<open>The world around the plugin\<close>

text \<open>
  The settings file \<^verbatim>\<open>lotuswifi.json\<close>: absent, present with a JSON object, or
  present with content that \<^verbatim>\<open>json.load\<close> or \<^verbatim>\<open>dict.update\<close> rejects (an
  unreadable file, a truncated write, text that is not a JSON object). The JSON library
  is not part of the repository: a file written by \<^verbatim>\<open>json.dump\<close> is taken to hold
  the dict it was given.
\<close>

datatype file_state = Missing | Unloadable | Stored pydict

text \<open>An operation on a child process: \<open>Spawn p path\<close> starts child \<open>p\<close> on the
  script copy \<open>path\<close>; the others act on the child they name.\<close>

datatype proc_op = Spawn nat nat | Terminate nat | Wait nat | Kill nat

text \<open>
  What the operating system does to one call of an operation: the outcome of each step
  that can raise. \<open>save_fault\<close> tells whether writing the settings file succeeds, fails
  before the file is opened for writing, or fails after it was truncated.
\<close>

datatype save_fault = SaveOk | SaveFailsBeforeOpen | SaveFailsAfterOpen

record faults =
  save_fault :: save_fault
  temp_fault :: bool
  spawn_fault :: bool
  terminate_fault :: bool
  wait_timeout :: bool
  kill_fault :: bool
  chmod_fault :: bool

text \<open>
  The state: the five attributes of \<^verbatim>\<open>Plugin\<close> that the operations change, and the
  parts of the world they act on. \<open>settings_file\<close> is the settings file;
  \<open>script_file\<close> is the text of the monitoring script at \<^verbatim>\<open>script_path\<close>, or
  \<open>None\<close> when there is no such file; \<open>temp_files\<close> holds the text of every script
  copy written so far, and a copy is named by its index there. A child process is a
  number; \<open>live\<close> holds the children that run, \<open>spawned\<close> counts the children ever
  started, \<open>proc_ops\<close> records every operation on a process, \<open>monitor_tasks\<close> counts
  the output-consuming tasks created, \<open>events\<close> is what \<^verbatim>\<open>decky.emit\<close> sent and
  \<open>logger\<close> what \<^verbatim>\<open>decky.logger\<close> wrote. \<^verbatim>\<open>decky.emit\<close> and
  \<^verbatim>\<open>decky.logger\<close> are taken not to raise.
\<close>

record state =
  script_process :: "nat option"
  is_monitoring :: bool
  settings :: pydict
  last_status :: ping_status
  restart_count :: int
  settings_file :: file_state
  script_file :: "string option"
  temp_files :: "string list"
  live :: "nat set"
  spawned :: nat
  proc_ops :: "proc_op list"
  monitor_tasks :: nat
  events :: "event list"
  logger :: "log_entry list"

section \<open>Exceptions and state\<close>

text \<open>
  An operation takes the state and returns its result with the new state; the result is
  \<open>Inl e\<close> when the Python raises \<open>e\<close>. \<open>bindM\<close> is sequencing (an exception ends
  the sequence), \<open>tryM\<close> is \<^verbatim>\<open>try: ... except Exception as e: ...\<close>.
  An operation runs to its end before the next one starts: what another coroutine does
  while one waits at an \<^verbatim>\<open>await\<close> is not modelled.
\<close>

type_synonym 'a action = "state \<Rightarrow> (exn + 'a) \<times> state"

definition returnM :: "'a \<Rightarrow> 'a action" where
  "returnM x s = (Inr x, s)"

definition raiseM :: "exn \<Rightarrow> 'a action" where
  "raiseM e s = (Inl e, s)"

definition bindM :: "'a action \<Rightarrow> ('a \<Rightarrow> 'b action) \<Rightarrow> 'b action" where
  "bindM m k s = (case m s of (Inl e, s') \<Rightarrow> (Inl e, s') | (Inr x, s') \<Rightarrow> k x s')"

definition tryM :: "'a action \<Rightarrow> (exn \<Rightarrow> 'a action) \<Rightarrow> 'a action" where
  "tryM m h s = (case m s of (Inl e, s') \<Rightarrow> h e s' | (Inr x, s') \<Rightarrow> (Inr x, s'))"

definition modify :: "(state \<Rightarrow> state) \<Rightarrow> unit action" where
  "modify g s = (Inr (), g s)"

definition emit :: "event \<Rightarrow> state \<Rightarrow> state" where
  "emit e s = s\<lparr>events := events s @ [e]\<rparr>"

definition log_info :: "string \<Rightarrow> state \<Rightarrow> state" where
  "log_info msg s = s\<lparr>logger := logger s @ [Info msg]\<rparr>"

definition log_error :: "string \<Rightarrow> state \<Rightarrow> state" where
  "log_error msg s = s\<lparr>logger := logger s @ [Error msg]\<rparr>"

definition log_exn :: "string \<Rightarrow> exn \<Rightarrow> state \<Rightarrow> state" where
  "log_exn msg e s = s\<lparr>logger := logger s @ [ErrorExn msg e]\<rparr>"

text \<open>\<^verbatim>\<open>d[k]\<close>: a missing key raises \<^verbatim>\<open>KeyError\<close>.\<close>

definition getitem :: "pydict \<Rightarrow> string \<Rightarrow> exn + pyval" where
  "getitem d k = (case d k of None \<Rightarrow> Inl (KeyError k) | Some v \<Rightarrow> Inr v)"

section \<open>Strings\<close>

fun starts_with :: "string \<Rightarrow> string \<Rightarrow> bool" where
  "starts_with [] s = True"
| "starts_with (p # ps) [] = False"
| "starts_with (p # ps) (c # cs) = (p = c \<and> starts_with ps cs)"

text \<open>\<^verbatim>\<open>sub in s\<close>.\<close>

fun contains :: "string \<Rightarrow> string \<Rightarrow> bool" where
  "contains sub [] = (sub = [])"
| "contains sub (c # cs) = (starts_with sub (c # cs) \<or> contains sub cs)"

text \<open>
  \<^verbatim>\<open>s.replace(old, new)\<close> for a non-empty \<open>old\<close>: every occurrence, left to right,
  without overlap. The counter is the number of characters of the occurrence just
  replaced that are still to be skipped.
\<close>

fun replace_from :: "string \<Rightarrow> string \<Rightarrow> nat \<Rightarrow> string \<Rightarrow> string" where
  "replace_from old new k [] = []"
| "replace_from old new (Suc k) (c # cs) = replace_from old new k cs"
| "replace_from old new 0 (c # cs) =
     (if starts_with old (c # cs) then new @ replace_from old new (length old - 1) cs
      else c # replace_from old new 0 cs)"

definition replace :: "string \<Rightarrow> string \<Rightarrow> string \<Rightarrow> string" where
  "replace old new s = replace_from old new 0 s"

text \<open>
  \<^verbatim>\<open>s.strip()\<close>. A line is modelled as a list of 8-bit characters; these are the
  characters below 256 that Python counts as white space.
\<close>

definition is_space :: "char \<Rightarrow> bool" where
  "is_space c = ((of_char c :: nat) \<in> {9, 10, 11, 12, 13, 28, 29, 30, 31, 32, 133, 160})"

definition strip :: "string \<Rightarrow> string" where
  "strip s = rev (dropWhile is_space (rev (dropWhile is_space s)))"

text \<open>
  The two regular expressions of \<^verbatim>\<open>_parse_script_output\<close> are a literal followed by
  \<^verbatim>\<open>(\d+(?:\.\d+)?)ms\)\<close>. \<open>match_number\<close> matches that tail at the start of a
  string and returns group 1. Giving back digits never helps the match: the character
  after a shorter run of digits is a digit, where the pattern wants \<^verbatim>\<open>.\<close> or
  \<^verbatim>\<open>m\<close>; so the greedy choice is the only one. Among the characters below 256,
  \<^verbatim>\<open>\d\<close> matches the ten ASCII digits.
\<close>

definition is_digit :: "char \<Rightarrow> bool" where
  "is_digit c = (c \<in> set ''0123456789'')"

definition match_number :: "string \<Rightarrow> string option" where
  "match_number s =
     (let ds = takeWhile is_digit s; r = dropWhile is_digit s in
      if ds = [] then None
      else case r of
        [] \<Rightarrow> None
      | c # r' \<Rightarrow>
          (let fs = takeWhile is_digit r' in
           if c = CHR ''.'' \<and> fs \<noteq> [] \<and> starts_with ''ms)'' (dropWhile is_digit r')
           then Some (ds @ [c] @ fs)
           else if starts_with ''ms)'' r then Some ds
           else None))"

definition match_at :: "string \<Rightarrow> string \<Rightarrow> string option" where
  "match_at lit s =
     (if starts_with lit s then match_number (drop (length lit) s) else None)"

text \<open>\<^verbatim>\<open>re.search\<close>: the match at the leftmost position that has one.\<close>

fun re_search :: "string \<Rightarrow> string \<Rightarrow> string option" where
  "re_search lit [] = match_at lit []"
| "re_search lit (c # cs) =
     (case match_at lit (c # cs) of Some g \<Rightarrow> Some g | None \<Rightarrow> re_search lit cs)"

section \<open>The plugin\<close>

subsection \<open>\<^verbatim>\<open>Plugin.__init__\<close>\<close>

definition default_settings :: pydict where
  "default_settings =
     Map.empty(''max_latency'' \<mapsto> PInt 100, ''check_interval'' \<mapsto> PInt 10,
               ''ping_host'' \<mapsto> PStr ''8.8.8.8'', ''enabled'' \<mapsto> PBool False)"

definition initial_status :: ping_status where
  "initial_status = \<lparr>latency = IntNum 0, status = ''unknown'', timestamp = 0\<rparr>"

text \<open>A new \<^verbatim>\<open>Plugin\<close> in a world with the given settings file and monitoring script,
  no child process, nothing emitted and nothing logged.\<close>

definition init :: "file_state \<Rightarrow> string option \<Rightarrow> state" where
  "init file script =
     \<lparr>script_process = None, is_monitoring = False, settings = default_settings,
      last_status = initial_status, restart_count = 0,
      settings_file = file, script_file = script, temp_files = [], live = {},
      spawned = 0, proc_ops = [], monitor_tasks = 0, events = [], logger = []\<rparr>"

subsection \<open>\<^verbatim>\<open>_save_settings\<close> and \<^verbatim>\<open>_load_settings\<close>\<close>

text \<open>
  \<^verbatim>\<open>_save_settings\<close>: \<^verbatim>\<open>os.makedirs\<close>, \<^verbatim>\<open>open(settings_file, 'w')\<close> and
  \<^verbatim>\<open>json.dump\<close> inside \<^verbatim>\<open>try\<close>; the handler logs and the function returns
  normally. A write that fails after \<^verbatim>\<open>open\<close> leaves a proper prefix of a JSON
  object, which no \<^verbatim>\<open>json.load\<close> accepts.
\<close>

definition save_settings :: "faults \<Rightarrow> unit action" where
  "save_settings f =
     tryM (\<lambda>s. case save_fault f of
                  SaveOk \<Rightarrow> (Inr (), s\<lparr>settings_file := Stored (settings s)\<rparr>)
                | SaveFailsBeforeOpen \<Rightarrow> (Inl OSError, s)
                | SaveFailsAfterOpen \<Rightarrow> (Inl OSError, s\<lparr>settings_file := Unloadable\<rparr>))
          (\<lambda>e. modify (log_exn ''Failed to save settings'' e))"

text \<open>\<^verbatim>\<open>_load_settings\<close>: if the file exists, \<^verbatim>\<open>self.settings.update(json.load(f))\<close>.\<close>

definition load_settings :: "unit action" where
  "load_settings =
     tryM (\<lambda>s. case settings_file s of
                  Missing \<Rightarrow> (Inr (), s)
                | Unloadable \<Rightarrow> (Inl JSONDecodeError, s)
                | Stored saved \<Rightarrow> (Inr (), s\<lparr>settings := settings s ++ saved\<rparr>))
          (\<lambda>e. modify (log_exn ''Failed to load settings'' e))"

subsection \<open>\<^verbatim>\<open>stop_monitoring\<close>\<close>

text \<open>
  The operations on the child. Each records itself in \<open>proc_ops\<close>. The child has
  exited once a wait for it returns. For a child that has already exited,
  \<^verbatim>\<open>terminate\<close> and \<^verbatim>\<open>kill\<close> raise \<^verbatim>\<open>ProcessLookupError\<close>, as asyncio
  does; a fault makes them raise for a live child too.
\<close>

definition terminate :: "faults \<Rightarrow> nat \<Rightarrow> unit action" where
  "terminate f p s =
     (let s' = s\<lparr>proc_ops := proc_ops s @ [Terminate p]\<rparr> in
      if terminate_fault f \<or> p \<notin> live s then (Inl ProcessLookupError, s')
      else (Inr (), s'))"

definition wait_for :: "faults \<Rightarrow> nat \<Rightarrow> unit action" where
  "wait_for f p s =
     (let s' = s\<lparr>proc_ops := proc_ops s @ [Wait p]\<rparr> in
      if wait_timeout f then (Inl TimeoutError, s')
      else (Inr (), s'\<lparr>live := live s' - {p}\<rparr>))"

definition kill :: "faults \<Rightarrow> nat \<Rightarrow> unit action" where
  "kill f p s =
     (let s' = s\<lparr>proc_ops := proc_ops s @ [Kill p]\<rparr> in
      if kill_fault f \<or> p \<notin> live s then (Inl ProcessLookupError, s')
      else (Inr (), s'))"

definition wait :: "nat \<Rightarrow> unit action" where
  "wait p s = (Inr (), s\<lparr>proc_ops := proc_ops s @ [Wait p], live := live s - {p}\<rparr>)"

text \<open>The block under \<^verbatim>\<open>if self.script_process:\<close>; the inner handler catches
  \<^verbatim>\<open>asyncio.TimeoutError\<close> only.\<close>

definition stop_process :: "faults \<Rightarrow> nat \<Rightarrow> unit action" where
  "stop_process f p =
     bindM (terminate f p) (\<lambda>_.
     bindM (tryM (wait_for f p)
              (\<lambda>e. if e = TimeoutError then bindM (kill f p) (\<lambda>_. wait p) else raiseM e)) (\<lambda>_.
     modify (\<lambda>s. s\<lparr>script_process := None\<rparr>)))"

definition stop_monitoring :: "faults \<Rightarrow> bool action" where
  "stop_monitoring f =
     tryM
       (bindM (modify (\<lambda>s. s\<lparr>is_monitoring := False\<rparr>)) (\<lambda>_.
        bindM (modify (\<lambda>s. s\<lparr>settings := (settings s)(''enabled'' \<mapsto> PBool False)\<rparr>)) (\<lambda>_.
        bindM (\<lambda>s. case script_process s of
                      None \<Rightarrow> (Inr (), s)
                    | Some p \<Rightarrow> stop_process f p s) (\<lambda>_.
        bindM (modify (log_info ''Wi-Fi monitoring script stopped'')) (\<lambda>_.
        bindM (modify (emit (WifiStatusChanged False))) (\<lambda>_.
        returnM True))))))
       (\<lambda>e. bindM (modify (log_exn ''Failed to stop monitoring script'' e)) (\<lambda>_.
             returnM False))"

subsection \<open>\<^verbatim>\<open>_create_configured_script\<close> and \<^verbatim>\<open>start_monitoring\<close>\<close>

definition dquote :: char where
  "dquote = CHR 0x22"

text \<open>
  The result is the temporary file, named by its index in \<open>temp_files\<close>.
  \<open>temp_fault\<close> is a failure of \<^verbatim>\<open>mkstemp\<close>, of the write or of \<^verbatim>\<open>chmod\<close>;
  what such a failure leaves on disk is not tracked. The handler logs and raises again.
\<close>

definition create_configured_script :: "faults \<Rightarrow> nat action" where
  "create_configured_script f =
     tryM
       (\<lambda>s. case script_file s of
               None \<Rightarrow> (Inl OSError, s)
             | Some script_content \<Rightarrow>
                 (case getitem (settings s) ''max_latency'' of
                    Inl e \<Rightarrow> (Inl e, s)
                  | Inr max_latency \<Rightarrow>
                 (case getitem (settings s) ''check_interval'' of
                    Inl e \<Rightarrow> (Inl e, s)
                  | Inr check_interval \<Rightarrow>
                 (case getitem (settings s) ''ping_host'' of
                    Inl e \<Rightarrow> (Inl e, s)
                  | Inr ping_host \<Rightarrow>
                      (let c1 = replace ''MAX_LATENCY=100''
                                  (''MAX_LATENCY='' @ py_str max_latency) script_content;
                           c2 = replace ''CHECK_INTERVAL=10''
                                  (''CHECK_INTERVAL='' @ py_str check_interval) c1;
                           c3 = replace (''PING_HOST='' @ [dquote] @ ''8.8.8.8'' @ [dquote])
                                  (''PING_HOST='' @ [dquote] @ py_str ping_host @ [dquote]) c2
                       in if temp_fault f then (Inl OSError, s)
                          else (Inr (length (temp_files s)),
                                s\<lparr>temp_files := temp_files s @ [c3]\<rparr>))))))
       (\<lambda>e. bindM (modify (log_exn ''Failed to create configured script'' e)) (\<lambda>_.
             raiseM e))"

text \<open>\<^verbatim>\<open>asyncio.create_subprocess_exec("bash", path, ...)\<close>: a new live child.\<close>

definition create_subprocess_exec :: "faults \<Rightarrow> nat \<Rightarrow> nat action" where
  "create_subprocess_exec f path s =
     (if spawn_fault f then (Inl OSError, s)
      else (Inr (spawned s),
            s\<lparr>live := insert (spawned s) (live s), spawned := Suc (spawned s),
              proc_ops := proc_ops s @ [Spawn (spawned s) path]\<rparr>))"

text \<open>\<^verbatim>\<open>asyncio.create_task(self._monitor_script_output())\<close> only schedules the
  task; it runs later, as \<open>monitor_script_output\<close> below.\<close>

definition start_monitoring :: "faults \<Rightarrow> bool action" where
  "start_monitoring f s =
     (if is_monitoring s then (Inr True, s)
      else
        tryM
          (bindM (create_configured_script f) (\<lambda>modified_script.
           bindM (create_subprocess_exec f modified_script) (\<lambda>p.
           bindM (modify (\<lambda>s. s\<lparr>script_process := Some p\<rparr>)) (\<lambda>_.
           bindM (modify (\<lambda>s. s\<lparr>is_monitoring := True\<rparr>)) (\<lambda>_.
           bindM (modify (\<lambda>s. s\<lparr>settings := (settings s)(''enabled'' \<mapsto> PBool True)\<rparr>)) (\<lambda>_.
           bindM (modify (\<lambda>s. s\<lparr>monitor_tasks := Suc (monitor_tasks s)\<rparr>)) (\<lambda>_.
           bindM (modify (log_info ''Wi-Fi monitoring script started'')) (\<lambda>_.
           bindM (modify (emit (WifiStatusChanged True))) (\<lambda>_.
           returnM True)))))))))
          (\<lambda>e. bindM (modify (log_exn ''Failed to start monitoring script'' e)) (\<lambda>_.
                bindM (modify (\<lambda>s. s\<lparr>is_monitoring := False\<rparr>)) (\<lambda>_.
                returnM False)))
          s)"

subsection \<open>\<^verbatim>\<open>get_settings\<close>, \<^verbatim>\<open>update_settings\<close>, \<^verbatim>\<open>get_status\<close>\<close>

definition get_settings :: "pydict action" where
  "get_settings s = (Inr (settings s), s)"

text \<open>\<^verbatim>\<open>old_settings[k] != self.settings[k]\<close>.\<close>

definition changed :: "pydict \<Rightarrow> pydict \<Rightarrow> string \<Rightarrow> exn + bool" where
  "changed old cur k =
     (case getitem old k of
        Inl e \<Rightarrow> Inl e
      | Inr a \<Rightarrow> (case getitem cur k of Inl e \<Rightarrow> Inl e | Inr b \<Rightarrow> Inr (\<not> py_eq a b)))"

text \<open>The condition of the \<^verbatim>\<open>if\<close> in \<^verbatim>\<open>update_settings\<close>; \<^verbatim>\<open>and\<close> and
  \<^verbatim>\<open>or\<close> evaluate their right operand only when needed.\<close>

definition reconfig_needed :: "pydict \<Rightarrow> bool action" where
  "reconfig_needed old s =
     (if \<not> is_monitoring s then (Inr False, s)
      else case changed old (settings s) ''max_latency'' of
        Inl e \<Rightarrow> (Inl e, s)
      | Inr True \<Rightarrow> (Inr True, s)
      | Inr False \<Rightarrow>
          (case changed old (settings s) ''check_interval'' of
             Inl e \<Rightarrow> (Inl e, s)
           | Inr True \<Rightarrow> (Inr True, s)
           | Inr False \<Rightarrow>
               (case changed old (settings s) ''ping_host'' of
                  Inl e \<Rightarrow> (Inl e, s)
                | Inr b \<Rightarrow> (Inr b, s))))"

text \<open>The body of the \<^verbatim>\<open>if\<close>: stop, then start again if \<^verbatim>\<open>self.settings["enabled"]\<close>
  is true. The results of both calls are dropped.\<close>

definition restart_script :: "faults \<Rightarrow> unit action" where
  "restart_script f =
     bindM (stop_monitoring f) (\<lambda>_.
     bindM (\<lambda>s. (getitem (settings s) ''enabled'', s)) (\<lambda>enabled.
     if truthy enabled then bindM (start_monitoring f) (\<lambda>_. returnM ())
     else returnM ()))"

definition update_settings :: "faults \<Rightarrow> pydict \<Rightarrow> bool action" where
  "update_settings f new_settings =
     tryM
       (bindM (\<lambda>s. (Inr (settings s), s)) (\<lambda>old_settings.
        bindM (modify (\<lambda>s. s\<lparr>settings := settings s ++ new_settings\<rparr>)) (\<lambda>_.
        bindM (save_settings f) (\<lambda>_.
        bindM (reconfig_needed old_settings) (\<lambda>b.
        bindM (if b then restart_script f else returnM ()) (\<lambda>_.
        returnM True))))))
       (\<lambda>e. bindM (modify (log_exn ''Failed to update settings'' e)) (\<lambda>_.
             returnM False))"

record status_report =
  report_is_monitoring :: bool
  report_last_ping :: ping_status
  report_restart_count :: int
  report_settings :: pydict

definition get_status :: "status_report action" where
  "get_status s =
     (Inr \<lparr>report_is_monitoring = is_monitoring s, report_last_ping = last_status s,
           report_restart_count = restart_count s, report_settings = settings s\<rparr>, s)"

subsection \<open>\<^verbatim>\<open>_parse_script_output\<close>\<close>

text \<open>
  \<open>now\<close> is \<^verbatim>\<open>int(time.time())\<close>. The branches are an \<^verbatim>\<open>if\<close>/\<^verbatim>\<open>elif\<close> chain:
  the first marker found in the line decides, the later ones are not looked at. Nothing
  in the body raises: \<^verbatim>\<open>float\<close> is applied to a numeral the regular expression
  matched.
\<close>

definition parse_script_output :: "int \<Rightarrow> string \<Rightarrow> state \<Rightarrow> state" where
  "parse_script_output now line s =
     (if contains ''Ping OK'' line then
        (case re_search ''Ping OK ('' line of
           Some g \<Rightarrow>
             (let s' = s\<lparr>last_status :=
                          \<lparr>latency = FloatOf g, status = ''ok'', timestamp = now\<rparr>\<rparr>
              in emit (PingResult (last_status s')) s')
         | None \<Rightarrow> s)
      else if contains ''High latency detected'' line then
        (case re_search ''High latency detected ('' line of
           Some g \<Rightarrow>
             (let s' = s\<lparr>last_status :=
                          \<lparr>latency = FloatOf g, status = ''high'', timestamp = now\<rparr>\<rparr>
              in emit (PingResult (last_status s')) s')
         | None \<Rightarrow> s)
      else if contains ''Restarting Wi-Fi'' line then
        (let s' = s\<lparr>restart_count := restart_count s + 1\<rparr>
         in emit (WifiRestarted (restart_count s') ''High latency detected'') s')
      else if contains ''Ping failed or timed out'' line then
        (let s' = s\<lparr>last_status :=
                     \<lparr>latency = IntNum (- 1), status = ''failed'', timestamp = now\<rparr>\<rparr>
         in emit (PingResult (last_status s')) s')
      else s)"

subsection \<open>\<^verbatim>\<open>_monitor_script_output\<close>\<close>

text \<open>
  What one \<^verbatim>\<open>readline\<close> of the child's standard output gives: a line, decoded
  (\<open>Line []\<close> is the empty bytes object that \<^verbatim>\<open>if not line\<close> tests for), a line
  that \<^verbatim>\<open>decode\<close> rejects, or an exception of the read. The stream is the list of
  the reads to come, each with the clock at the time it is parsed; after the last of them
  the stream is at its end and \<^verbatim>\<open>readline\<close> returns the empty bytes object.
  A child that never closes its output is not a list: the loop then never ends, and the
  model says nothing about it.
\<close>

datatype read_result = Line string | Undecodable | ReadError

text \<open>
  The stream of a running script ends when the script exits. So when \<^verbatim>\<open>readline\<close>
  returns the empty bytes object, the child the handle names is no longer live. After a
  read or decoding error the child still runs.
\<close>

definition end_of_stream :: "state \<Rightarrow> state" where
  "end_of_stream s =
     (case script_process s of None \<Rightarrow> s | Some p \<Rightarrow> s\<lparr>live := live s - {p}\<rparr>)"

fun monitor_loop :: "(int \<times> read_result) list \<Rightarrow> unit action" where
  "monitor_loop [] s =
     (if is_monitoring s \<and> script_process s \<noteq> None then (Inr (), end_of_stream s)
      else (Inr (), s))"
| "monitor_loop ((now, r) # rs) s =
     (if is_monitoring s \<and> script_process s \<noteq> None then
        (case r of
           ReadError \<Rightarrow> (Inl OSError, s)
         | Undecodable \<Rightarrow> (Inl UnicodeDecodeError, s)
         | Line l \<Rightarrow>
             if l = [] then (Inr (), end_of_stream s)
             else monitor_loop rs
                    (parse_script_output now (strip l)
                       (log_info (''Script output: '' @ strip l) s)))
      else (Inr (), s))"

text \<open>The \<^verbatim>\<open>finally\<close> block.\<close>

definition monitor_finally :: "state \<Rightarrow> state" where
  "monitor_finally s =
     (if is_monitoring s then emit (WifiStatusChanged False) (s\<lparr>is_monitoring := False\<rparr>)
      else s)"

definition monitor_script_output :: "(int \<times> read_result) list \<Rightarrow> unit action" where
  "monitor_script_output stream s =
     (case script_process s of
        None \<Rightarrow> (Inr (), s)
      | Some p \<Rightarrow>
          bindM (tryM (monitor_loop stream)
                   (\<lambda>e. modify (log_exn ''Error monitoring script output'' e))) (\<lambda>_.
          modify monitor_finally) s)"

subsection \<open>The hooks \<^verbatim>\<open>_main\<close>, \<^verbatim>\<open>_unload\<close>, \<^verbatim>\<open>_uninstall\<close>, \<^verbatim>\<open>_migration\<close>\<close>

text \<open>\<^verbatim>\<open>self.settings.get("enabled", False)\<close>, as a condition.\<close>

definition enabled_setting :: "pydict \<Rightarrow> bool" where
  "enabled_setting d = (case d ''enabled'' of None \<Rightarrow> False | Some v \<Rightarrow> truthy v)"

text \<open>The \<^verbatim>\<open>if os.path.exists(self.script_path)\<close> of \<^verbatim>\<open>_main\<close>;
  \<^verbatim>\<open>os.chmod\<close> stands outside any \<^verbatim>\<open>try\<close>. The attribute \<^verbatim>\<open>self.loop\<close>
  that \<^verbatim>\<open>_main\<close> sets is read nowhere and is left out.\<close>

definition chmod_script :: "faults \<Rightarrow> unit action" where
  "chmod_script f s =
     (case script_file s of
        Some c \<Rightarrow> if chmod_fault f then (Inl OSError, s) else (Inr (), s)
      | None \<Rightarrow> (Inr (), log_error ''Script not found'' s))"

definition main :: "faults \<Rightarrow> unit action" where
  "main f =
     bindM (modify (log_info ''LotusWiFi plugin loaded'')) (\<lambda>_.
     bindM (chmod_script f) (\<lambda>_.
     bindM load_settings (\<lambda>_.
     bindM (\<lambda>s. (Inr (enabled_setting (settings s)), s)) (\<lambda>enabled.
     if enabled then bindM (start_monitoring f) (\<lambda>_. returnM ()) else returnM ()))))"

definition unload :: "faults \<Rightarrow> unit action" where
  "unload f =
     bindM (stop_monitoring f) (\<lambda>_.
     bindM (save_settings f) (\<lambda>_.
     modify (log_info ''LotusWiFi plugin unloaded'')))"

definition uninstall :: "faults \<Rightarrow> unit action" where
  "uninstall f =
     bindM (stop_monitoring f) (\<lambda>_.
     modify (log_info ''LotusWiFi plugin uninstalled''))"

definition migration :: "unit action" where
  "migration = modify (log_info ''LotusWiFi migration complete'')"

subsection \<open>Every operation of the supervisor\<close>

datatype operation =
    GetSettings
  | UpdateSettings pydict
  | GetStatus
  | StartMonitoring
  | StopMonitoring
  | MonitorScriptOutput "(int \<times> read_result) list"
  | ParseScriptOutput int string
  | LoadSettings
  | SaveSettings
  | PluginMain
  | Unload
  | Uninstall
  | Migration

text \<open>The state after an operation, whatever it returned or raised.\<close>

fun run :: "faults \<Rightarrow> operation \<Rightarrow> state \<Rightarrow> state" where
  "run f GetSettings s = snd (get_settings s)"
| "run f (UpdateSettings new_settings) s = snd (update_settings f new_settings s)"
| "run f GetStatus s = snd (get_status s)"
| "run f StartMonitoring s = snd (start_monitoring f s)"
| "run f StopMonitoring s = snd (stop_monitoring f s)"
| "run f (MonitorScriptOutput stream) s = snd (monitor_script_output stream s)"
| "run f (ParseScriptOutput now line) s = parse_script_output now line s"
| "run f LoadSettings s = snd (load_settings s)"
| "run f SaveSettings s = snd (save_settings f s)"
| "run f PluginMain s = snd (main f s)"
| "run f Unload s = snd (unload f s)"
| "run f Uninstall s = snd (uninstall f s)"
| "run f Migration s = snd (migration s)"

text \<open>A sequence of operations, each under its own faults.\<close>

fun run_all :: "(faults \<times> operation) list \<Rightarrow> state \<Rightarrow> state" where
  "run_all [] s = s"
| "run_all ((f, opn) # rest) s = run_all rest (run f opn s)"

section \<open>Notions the properties are stated with\<close>

text \<open>The settings hold the four keys of \<^verbatim>\<open>__init__\<close>: the data model's
  "always fully populated".\<close>

definition fully_populated :: "pydict \<Rightarrow> bool" where
  "fully_populated d =
     (d ''max_latency'' \<noteq> None \<and> d ''check_interval'' \<noteq> None \<and>
      d ''ping_host'' \<noteq> None \<and> d ''enabled'' \<noteq> None)"

text \<open>A non-empty run of digits; a latency in a line is one of them, or two with a
  point between.\<close>

definition unsigned_integer :: "string \<Rightarrow> bool" where
  "unsigned_integer ds = (ds \<noteq> [] \<and> list_all is_digit ds)"

text \<open>An event of the output parser, as opposed to a change of the monitoring flag.\<close>

fun parser_event :: "event \<Rightarrow> bool" where
  "parser_event (WifiStatusChanged b) = False"
| "parser_event (PingResult st) = True"
| "parser_event (WifiRestarted n reason) = True"

text \<open>Environments and states for the examples: no step fails; the spawn fails; the
  write of the settings file fails. \<open>fresh\<close> is a new plugin with its script in place
  and no settings file, \<open>no_script\<close> one whose script is missing, \<open>running\<close> the
  state of \<open>fresh\<close> after a first successful \<^verbatim>\<open>start_monitoring\<close>.
  \<open>exited\<close> is \<open>running\<close> after the script has exited without a line of output
  and the output-consuming task has seen the end of the stream; \<open>decode_failed\<close> is
  \<open>running\<close> after that task has met a line it cannot decode.\<close>

definition no_faults :: faults where
  "no_faults =
     \<lparr>save_fault = SaveOk, temp_fault = False, spawn_fault = False,
      terminate_fault = False, wait_timeout = False, kill_fault = False,
      chmod_fault = False\<rparr>"

definition spawn_fails :: faults where
  "spawn_fails = no_faults\<lparr>spawn_fault := True\<rparr>"

definition save_fails :: faults where
  "save_fails = no_faults\<lparr>save_fault := SaveFailsBeforeOpen\<rparr>"

definition sample_script :: string where
  "sample_script = ''MAX_LATENCY=100; CHECK_INTERVAL=10''"

definition fresh :: state where
  "fresh = init Missing (Some sample_script)"

definition no_script :: state where
  "no_script = init Missing None"

definition running :: state where
  "running = snd (start_monitoring no_faults fresh)"

definition exited :: state where
  "exited = snd (monitor_script_output [] running)"

definition decode_failed :: state where
  "decode_failed = snd (monitor_script_output [(5, Undecodable)] running)"

section \<open>Basic facts about the operations\<close>

lemmas action_defs = returnM_def raiseM_def bindM_def tryM_def modify_def

lemmas log_defs = emit_def log_info_def log_error_def log_exn_def

lemmas stop_defs = stop_monitoring_def stop_process_def terminate_def wait_for_def kill_def
  wait_def

text \<open>A \<^verbatim>\<open>try\<close> whose handler returns a value returns a value.\<close>

lemma tryM_returns:
  assumes "\<And>e t. \<exists>x. fst (h e t) = Inr x"
  shows "\<exists>x. fst (tryM m h s) = Inr x"
proof (cases "m s")
  case (Pair r t)
  show ?thesis
  proof (cases r)
    case (Inl e)
    with Pair assms [of e t] show ?thesis by (simp add: tryM_def)
  next
    case (Inr x)
    with Pair show ?thesis by (simp add: tryM_def)
  qed
qed

lemma stop_monitoring_returns: "\<exists>b. fst (stop_monitoring f s) = Inr b"
  unfolding stop_monitoring_def by (rule tryM_returns) (auto simp: action_defs)

lemma update_settings_returns: "\<exists>b. fst (update_settings f new s) = Inr b"
  unfolding update_settings_def by (rule tryM_returns) (auto simp: action_defs)

lemma start_monitoring_returns: "\<exists>b. fst (start_monitoring f s) = Inr b"
proof (cases "is_monitoring s")
  case True
  then show ?thesis by (auto simp: start_monitoring_def)
next
  case False
  have "\<exists>b. fst (tryM m (\<lambda>e. bindM (modify (log_exn msg e)) (\<lambda>_.
                 bindM (modify (\<lambda>s. s\<lparr>is_monitoring := False\<rparr>)) (\<lambda>_.
                 returnM False))) s) = Inr b" for m msg
    by (rule tryM_returns) (auto simp: action_defs)
  with False show ?thesis by (simp add: start_monitoring_def)
qed

lemma save_settings_eq:
  "save_settings f s =
     (Inr (),
      case save_fault f of
        SaveOk \<Rightarrow> s\<lparr>settings_file := Stored (settings s)\<rparr>
      | SaveFailsBeforeOpen \<Rightarrow> log_exn ''Failed to save settings'' OSError s
      | SaveFailsAfterOpen \<Rightarrow>
          log_exn ''Failed to save settings'' OSError (s\<lparr>settings_file := Unloadable\<rparr>))"
  by (simp add: save_settings_def action_defs split: save_fault.splits)

lemma load_settings_eq:
  "load_settings s =
     (Inr (),
      case settings_file s of
        Missing \<Rightarrow> s
      | Unloadable \<Rightarrow> log_exn ''Failed to load settings'' JSONDecodeError s
      | Stored saved \<Rightarrow> s\<lparr>settings := settings s ++ saved\<rparr>)"
  by (simp add: load_settings_def action_defs split: file_state.splits)

text \<open>\<^verbatim>\<open>stop_monitoring\<close> writes \<^verbatim>\<open>enabled\<close> and the flag before anything can
  raise, so they are false afterwards whatever happens to the child.\<close>

lemma stop_monitoring_settings:
  "settings (snd (stop_monitoring f s)) = (settings s)(''enabled'' \<mapsto> PBool False)"
  by (simp add: stop_defs action_defs log_defs Let_def split: option.splits)

lemma stop_monitoring_is_monitoring: "\<not> is_monitoring (snd (stop_monitoring f s))"
  by (simp add: stop_defs action_defs log_defs Let_def split: option.splits)

lemma stop_monitoring_frame:
  "spawned (snd (stop_monitoring f s)) = spawned s"
  "restart_count (snd (stop_monitoring f s)) = restart_count s"
  "last_status (snd (stop_monitoring f s)) = last_status s"
  "settings_file (snd (stop_monitoring f s)) = settings_file s"
  "monitor_tasks (snd (stop_monitoring f s)) = monitor_tasks s"
  "temp_files (snd (stop_monitoring f s)) = temp_files s"
  "script_file (snd (stop_monitoring f s)) = script_file s"
  by (simp_all add: stop_defs action_defs log_defs Let_def split: option.splits)

lemma stop_monitoring_no_child:
  assumes "script_process s = None"
  shows "stop_monitoring f s =
           (Inr True,
            s\<lparr>is_monitoring := False,
              settings := (settings s)(''enabled'' \<mapsto> PBool False),
              events := events s @ [WifiStatusChanged False],
              logger := logger s @ [Info ''Wi-Fi monitoring script stopped'']\<rparr>)"
  using assms by (simp add: stop_monitoring_def action_defs log_defs)

text \<open>
  So the test of \<^verbatim>\<open>self.settings["enabled"]\<close> after \<^verbatim>\<open>stop_monitoring\<close> in
  \<^verbatim>\<open>update_settings\<close> always fails: the restart is a stop.
\<close>

lemma restart_script_eq: "restart_script f s = (Inr (), snd (stop_monitoring f s))"
proof -
  obtain b t where st: "stop_monitoring f s = (Inr b, t)"
    using stop_monitoring_returns [of f s] by (cases "stop_monitoring f s") auto
  have "settings t ''enabled'' = Some (PBool False)"
    using stop_monitoring_settings [of f s] st by simp
  then show ?thesis
    using st by (simp add: restart_script_def action_defs getitem_def)
qed

lemma reconfig_needed_state: "snd (reconfig_needed old t) = t"
  by (simp add: reconfig_needed_def split: sum.splits bool.splits)

lemma update_settings_eq:
  "update_settings f new s =
     (let s1 = snd (save_settings f (s\<lparr>settings := settings s ++ new\<rparr>)) in
      case fst (reconfig_needed (settings s) s1) of
        Inl e \<Rightarrow> (Inr False, log_exn ''Failed to update settings'' e s1)
      | Inr b \<Rightarrow> (Inr True, if b then snd (stop_monitoring f s1) else s1))"
  using reconfig_needed_state
          [of "settings s" "snd (save_settings f (s\<lparr>settings := settings s ++ new\<rparr>))"]
  by (cases "reconfig_needed (settings s)
               (snd (save_settings f (s\<lparr>settings := settings s ++ new\<rparr>)))")
     (auto simp: update_settings_def action_defs save_settings_eq restart_script_eq Let_def
        split: sum.splits)

lemma update_settings_not_monitoring:
  assumes "\<not> is_monitoring s"
  shows "update_settings f new s =
           (Inr True, snd (save_settings f (s\<lparr>settings := settings s ++ new\<rparr>)))"
  using assms
  by (simp add: update_settings_eq reconfig_needed_def save_settings_eq log_defs Let_def
        split: save_fault.splits)

lemma py_eq_refl: "py_eq v v"
  by (cases v) simp_all

lemma changed_total:
  assumes "old k \<noteq> None"
  shows "\<exists>b. changed old (old ++ new) k = Inr b"
  using assms by (cases "new k") (auto simp: changed_def getitem_def map_add_def)

lemma changed_unchanged:
  assumes "old k \<noteq> None" and "new k = None"
  shows "changed old (old ++ new) k = Inr False"
  using assms by (auto simp: changed_def getitem_def map_add_def py_eq_refl)

lemma running_eq:
  "running =
     fresh\<lparr>script_process := Some 0, is_monitoring := True,
       settings := default_settings(''enabled'' \<mapsto> PBool True),
       temp_files := [sample_script], live := {0}, spawned := 1,
       proc_ops := [Spawn 0 0], monitor_tasks := 1,
       events := [WifiStatusChanged True],
       logger := [Info ''Wi-Fi monitoring script started'']\<rparr>"
  by (simp add: running_def fresh_def init_def start_monitoring_def action_defs log_defs
       create_configured_script_def create_subprocess_exec_def getitem_def
       default_settings_def no_faults_def sample_script_def replace_def str_int_def
       dquote_def digits.simps Let_def)

lemma exited_eq:
  "exited =
     running\<lparr>is_monitoring := False, live := {},
       events := [WifiStatusChanged True, WifiStatusChanged False]\<rparr>"
  by (simp add: exited_def monitor_script_output_def monitor_finally_def end_of_stream_def
        running_eq fresh_def init_def action_defs log_defs)

lemma decode_failed_eq:
  "decode_failed =
     running\<lparr>is_monitoring := False,
       events := [WifiStatusChanged True, WifiStatusChanged False],
       logger := [Info ''Wi-Fi monitoring script started'',
                  ErrorExn ''Error monitoring script output'' UnicodeDecodeError]\<rparr>"
  by (simp add: decode_failed_def monitor_script_output_def monitor_finally_def
        running_eq fresh_def init_def action_defs log_defs)

lemma reconfig_needed_cong:
  assumes "is_monitoring t = is_monitoring u" and "settings t = settings u"
  shows "fst (reconfig_needed old t) = fst (reconfig_needed old u)"
  using assms by (simp add: reconfig_needed_def split: sum.splits bool.splits)

lemma reconfig_needed_total:
  assumes "fully_populated old" and "settings t = old ++ new"
  shows "\<exists>b. fst (reconfig_needed old t) = Inr b"
proof -
  from assms(1) have k: "old ''max_latency'' \<noteq> None" "old ''check_interval'' \<noteq> None"
    "old ''ping_host'' \<noteq> None"
    by (simp_all add: fully_populated_def)
  obtain b1 where b1: "changed old (old ++ new) ''max_latency'' = Inr b1"
    using changed_total [of old "''max_latency''" new] k(1) by blast
  obtain b2 where b2: "changed old (old ++ new) ''check_interval'' = Inr b2"
    using changed_total [of old "''check_interval''" new] k(2) by blast
  obtain b3 where b3: "changed old (old ++ new) ''ping_host'' = Inr b3"
    using changed_total [of old "''ping_host''" new] k(3) by blast
  show ?thesis
    using b1 b2 b3 assms(2) by (auto simp: reconfig_needed_def split: bool.splits)
qed

section \<open>Public operations never raise\<close>

text \<open>
  C9. Whatever the state, the input and the faults of the file system and of the child
  (write of the settings file, script copy, spawn, terminate, wait, kill), each of
  \<^verbatim>\<open>get_settings\<close>, \<^verbatim>\<open>update_settings\<close>, \<^verbatim>\<open>get_status\<close>,
  \<^verbatim>\<open>start_monitoring\<close> and \<^verbatim>\<open>stop_monitoring\<close> returns a value: its result is
  never an exception.
\<close>

theorem public_operations_return:
  "(\<exists>d. fst (get_settings s) = Inr d) \<and>
   (\<exists>b. fst (update_settings f new_settings s) = Inr b) \<and>
   (\<exists>r. fst (get_status s) = Inr r) \<and>
   (\<exists>b. fst (start_monitoring f s) = Inr b) \<and>
   (\<exists>b. fst (stop_monitoring f s) = Inr b)"
  using update_settings_returns [of f new_settings s] start_monitoring_returns [of f s]
    stop_monitoring_returns [of f s]
  by (simp add: get_settings_def get_status_def)

theorem public_operations_return_witness:
  "(\<exists>d. fst (get_settings fresh) = Inr d) \<and>
   (\<exists>b. fst (update_settings spawn_fails Map.empty fresh) = Inr b) \<and>
   (\<exists>r. fst (get_status fresh) = Inr r) \<and>
   (\<exists>b. fst (start_monitoring spawn_fails fresh) = Inr b) \<and>
   (\<exists>b. fst (stop_monitoring spawn_fails fresh) = Inr b)"
  by (rule public_operations_return)

section \<open>Stopping\<close>

text \<open>In every state \<^verbatim>\<open>stop_monitoring\<close> clears the flag and \<^verbatim>\<open>enabled\<close>; where it
  returns true it has cleared the handle and emitted the event.\<close>

lemma stop_monitoring_success:
  assumes "fst (stop_monitoring f s) = Inr True"
  shows "script_process (snd (stop_monitoring f s)) = None"
    and "events (snd (stop_monitoring f s)) = events s @ [WifiStatusChanged False]"
  using assms
  by (auto simp: stop_defs action_defs log_defs Let_def split: option.splits if_splits)

text \<open>With a handle to a live child and no failing step the child is terminated (or
  killed after the timeout) and waited for.\<close>

lemma stop_monitoring_live_child:
  assumes "script_process s = Some p" and "p \<in> live s" and "\<not> terminate_fault f"
    and "wait_timeout f \<longrightarrow> \<not> kill_fault f"
  shows "fst (stop_monitoring f s) = Inr True"
    and "live (snd (stop_monitoring f s)) = live s - {p}"
  using assms
  by (auto simp: stop_defs action_defs log_defs Let_def)

lemma stop_monitoring_no_handle:
  assumes "script_process s = None"
  shows "let s' = snd (stop_monitoring f s) in
     fst (stop_monitoring f s) = Inr True \<and>
     proc_ops s' = proc_ops s \<and> live s' = live s \<and> spawned s' = spawned s \<and>
     script_process s' = None \<and>
     \<not> is_monitoring s' \<and>
     settings s' = (settings s)(''enabled'' \<mapsto> PBool False) \<and>
     events s' = events s @ [WifiStatusChanged False] \<and>
     stop_monitoring f' s' =
       (Inr True,
        s'\<lparr>events := events s' @ [WifiStatusChanged False],
           logger := logger s' @ [Info ''Wi-Fi monitoring script stopped'']\<rparr>)"
proof -
  define s' where "s' = snd (stop_monitoring f s)"
  have first: "stop_monitoring f s =
      (Inr True,
       s\<lparr>is_monitoring := False,
         settings := (settings s)(''enabled'' \<mapsto> PBool False),
         events := events s @ [WifiStatusChanged False],
         logger := logger s @ [Info ''Wi-Fi monitoring script stopped'']\<rparr>)"
    by (rule stop_monitoring_no_child [OF assms])
  then have none: "script_process s' = None"
    using assms by (simp add: s'_def)
  have again: "stop_monitoring f' s' =
      (Inr True,
       s'\<lparr>events := events s' @ [WifiStatusChanged False],
          logger := logger s' @ [Info ''Wi-Fi monitoring script stopped'']\<rparr>)"
    using stop_monitoring_no_child [OF none, of f'] first by (simp add: s'_def)
  show ?thesis
    using first again assms unfolding Let_def s'_def [symmetric] by (simp add: s'_def)
qed

text \<open>
  C5, as the claim states it, fails. The script has exited by itself and the
  output-consuming task has cleared the flag; the handle is still there. Nothing is
  monitored, yet \<^verbatim>\<open>stop_monitoring\<close> is not safe to call: \<^verbatim>\<open>terminate\<close> raises
  for the exited child, \<^verbatim>\<open>stop_monitoring\<close> returns false, emits nothing and keeps
  the handle, and a second call does the same.
\<close>

theorem stop_monitoring_after_child_exit:
  "\<not> is_monitoring exited \<and> script_process exited = Some 0 \<and> live exited = {} \<and>
   fst (stop_monitoring no_faults exited) = Inr False \<and>
   fst (stop_monitoring no_faults exited) \<noteq> Inr True \<and>
   events (snd (stop_monitoring no_faults exited)) = events exited \<and>
   script_process (snd (stop_monitoring no_faults exited)) = Some 0 \<and>
   fst (stop_monitoring no_faults (snd (stop_monitoring no_faults exited))) = Inr False"
  by (simp add: exited_eq running_eq fresh_def init_def no_faults_def stop_defs action_defs
        log_defs Let_def)

text \<open>
  C5, amended. When there is no child handle (monitoring was never started, or an
  earlier \<^verbatim>\<open>stop_monitoring\<close> returned true), \<^verbatim>\<open>stop_monitoring\<close> returns true and
  touches no process: no operation on a process is recorded and the live children are
  the same. It leaves the flag and \<^verbatim>\<open>enabled\<close> false and emits
  \<open>wifi_status_changed(false)\<close>, and it is idempotent there: called again, under any
  faults, it returns true again and changes nothing but the event and the log line it
  adds. In every state it leaves the flag and \<^verbatim>\<open>enabled\<close> false, and whenever it
  returns true it has cleared the handle and emitted the event; with a handle to a live
  child and no failing step it returns true and the child has exited.
\<close>

theorem stop_monitoring_never_started:
  "(script_process s = None \<longrightarrow>
      (let s' = snd (stop_monitoring f s) in
       fst (stop_monitoring f s) = Inr True \<and>
       proc_ops s' = proc_ops s \<and> live s' = live s \<and> spawned s' = spawned s \<and>
       script_process s' = None \<and>
       \<not> is_monitoring s' \<and>
       settings s' = (settings s)(''enabled'' \<mapsto> PBool False) \<and>
       events s' = events s @ [WifiStatusChanged False] \<and>
       stop_monitoring f' s' =
         (Inr True,
          s'\<lparr>events := events s' @ [WifiStatusChanged False],
             logger := logger s' @ [Info ''Wi-Fi monitoring script stopped'']\<rparr>))) \<and>
   \<not> is_monitoring (snd (stop_monitoring f s)) \<and>
   settings (snd (stop_monitoring f s)) = (settings s)(''enabled'' \<mapsto> PBool False) \<and>
   (fst (stop_monitoring f s) = Inr True \<longrightarrow>
      script_process (snd (stop_monitoring f s)) = None \<and>
      events (snd (stop_monitoring f s)) = events s @ [WifiStatusChanged False]) \<and>
   (script_process s = Some p \<and> p \<in> live s \<and> \<not> terminate_fault f \<and>
    (wait_timeout f \<longrightarrow> \<not> kill_fault f) \<longrightarrow>
      fst (stop_monitoring f s) = Inr True \<and>
      live (snd (stop_monitoring f s)) = live s - {p})"
  using stop_monitoring_no_handle [of s f f'] stop_monitoring_success [of f s]
    stop_monitoring_live_child [of s p f]
  by (simp add: stop_monitoring_settings stop_monitoring_is_monitoring)

theorem stop_monitoring_never_started_witness:
  "script_process fresh = None \<and>
   fst (stop_monitoring no_faults fresh) = Inr True \<and>
   proc_ops (snd (stop_monitoring no_faults fresh)) = [] \<and>
   events (snd (stop_monitoring no_faults fresh)) = [WifiStatusChanged False] \<and>
   fst (stop_monitoring no_faults (snd (stop_monitoring no_faults fresh))) = Inr True \<and>
   script_process running = Some 0 \<and> 0 \<in> live running \<and>
   fst (stop_monitoring no_faults running) = Inr True \<and>
   script_process (snd (stop_monitoring no_faults running)) = None \<and>
   live (snd (stop_monitoring no_faults running)) = {}"
proof -
  have h: "script_process fresh = None"
    by (simp add: fresh_def init_def)
  have r: "script_process running = Some 0" "0 \<in> live running" "live running = {0}"
    by (simp_all add: running_eq)
  have n: "\<not> terminate_fault no_faults" "wait_timeout no_faults \<longrightarrow> \<not> kill_fault no_faults"
    by (simp_all add: no_faults_def)
  show ?thesis
    using h r n stop_monitoring_never_started [of fresh no_faults no_faults 0]
      stop_monitoring_never_started [of running no_faults no_faults 0]
    by (simp add: Let_def fresh_def init_def)
qed

section \<open>Updating the settings\<close>

text \<open>
  C10. While monitoring is inactive, \<^verbatim>\<open>update_settings\<close> with a map that sets
  \<^verbatim>\<open>enabled\<close> to true returns true, merges the map into the settings and, when the
  write succeeds, stores the merged settings in the file; it starts nothing: the flag,
  the child handle, \<open>last_status\<close> and \<open>restart_count\<close> are unchanged, and so are
  the processes, the temporary files, the monitor tasks and the events.
\<close>

theorem enable_while_stopped_starts_nothing:
  assumes "\<not> is_monitoring s" and "new_settings ''enabled'' = Some (PBool True)"
  shows "let s' = snd (update_settings f new_settings s) in
     fst (update_settings f new_settings s) = Inr True \<and>
     settings s' = settings s ++ new_settings \<and>
     settings s' ''enabled'' = Some (PBool True) \<and>
     (save_fault f = SaveOk \<longrightarrow> settings_file s' = Stored (settings s ++ new_settings)) \<and>
     is_monitoring s' = is_monitoring s \<and>
     script_process s' = script_process s \<and>
     last_status s' = last_status s \<and>
     restart_count s' = restart_count s \<and>
     live s' = live s \<and> spawned s' = spawned s \<and> proc_ops s' = proc_ops s \<and>
     monitor_tasks s' = monitor_tasks s \<and> temp_files s' = temp_files s \<and>
     events s' = events s"
  using assms
  by (simp add: update_settings_not_monitoring save_settings_eq log_defs Let_def
        split: save_fault.splits)

theorem enable_while_stopped_starts_nothing_witness:
  "\<not> is_monitoring fresh \<and>
   fst (update_settings no_faults (Map.empty(''enabled'' \<mapsto> PBool True)) fresh) = Inr True \<and>
   settings (snd (update_settings no_faults (Map.empty(''enabled'' \<mapsto> PBool True)) fresh))
     ''enabled'' = Some (PBool True) \<and>
   \<not> is_monitoring (snd (update_settings no_faults (Map.empty(''enabled'' \<mapsto> PBool True)) fresh)) \<and>
   script_process (snd (update_settings no_faults (Map.empty(''enabled'' \<mapsto> PBool True)) fresh))
     = None \<and>
   spawned (snd (update_settings no_faults (Map.empty(''enabled'' \<mapsto> PBool True)) fresh)) = 0"
proof -
  have h1: "\<not> is_monitoring fresh"
    by (simp add: fresh_def init_def)
  have h2: "(Map.empty(''enabled'' \<mapsto> PBool True)) ''enabled'' = Some (PBool True)"
    by simp
  show ?thesis
    using h1 h2
      enable_while_stopped_starts_nothing
        [of fresh "Map.empty(''enabled'' \<mapsto> PBool True)" no_faults]
    by (simp add: Let_def fresh_def init_def)
qed

text \<open>
  C1, as the claim states it, fails: \<^verbatim>\<open>_save_settings\<close> catches the I/O error itself
  and logs it, so \<^verbatim>\<open>update_settings\<close> never sees it. Here the write of the settings
  file fails for a new plugin and \<^verbatim>\<open>update_settings\<close> returns true, not false.
\<close>

theorem update_settings_save_failure_returns_true:
  "save_fault save_fails = SaveFailsBeforeOpen \<and>
   fst (update_settings save_fails (Map.empty(''max_latency'' \<mapsto> PInt 50)) fresh) = Inr True \<and>
   fst (update_settings save_fails (Map.empty(''max_latency'' \<mapsto> PInt 50)) fresh) \<noteq> Inr False \<and>
   settings (snd (update_settings save_fails (Map.empty(''max_latency'' \<mapsto> PInt 50)) fresh))
     ''max_latency'' = Some (PInt 50) \<and>
   settings_file (snd (update_settings save_fails (Map.empty(''max_latency'' \<mapsto> PInt 50)) fresh))
     = Missing"
  by (simp add: update_settings_not_monitoring save_settings_eq log_defs save_fails_def
        no_faults_def fresh_def init_def)

text \<open>
  C1, amended. When the write of the settings file fails, the error is logged by
  \<^verbatim>\<open>_save_settings\<close> and \<^verbatim>\<open>update_settings\<close> returns true (for settings that hold
  the four keys). The settings in memory remain updated with the merged fields: every
  key other than \<^verbatim>\<open>enabled\<close> holds its merged value, and while monitoring is inactive
  the settings are exactly the old ones merged with the new ones. The file keeps its old
  content, or is left unloadable when the write failed after the file was opened.
\<close>

theorem update_settings_save_failure:
  assumes "save_fault f \<noteq> SaveOk" and "fully_populated (settings s)"
  shows "let s' = snd (update_settings f new_settings s) in
     fst (update_settings f new_settings s) = Inr True \<and>
     (\<forall>k. k \<noteq> ''enabled'' \<longrightarrow> settings s' k = (settings s ++ new_settings) k) \<and>
     (\<not> is_monitoring s \<longrightarrow> settings s' = settings s ++ new_settings) \<and>
     ErrorExn ''Failed to save settings'' OSError \<in> set (logger s') \<and>
     settings_file s' =
       (if save_fault f = SaveFailsAfterOpen then Unloadable else settings_file s)"
proof -
  define s0 where "s0 = s\<lparr>settings := settings s ++ new_settings\<rparr>"
  define s1 where "s1 = snd (save_settings f s0)"
  have s1: "settings s1 = settings s ++ new_settings" "is_monitoring s1 = is_monitoring s"
    "ErrorExn ''Failed to save settings'' OSError \<in> set (logger s1)"
    "settings_file s1 =
       (if save_fault f = SaveFailsAfterOpen then Unloadable else settings_file s)"
    using assms(1)
    by (simp_all add: s1_def s0_def save_settings_eq log_defs split: save_fault.splits)
  obtain b where b: "fst (reconfig_needed (settings s) s1) = Inr b"
    using reconfig_needed_total [OF assms(2) s1(1)] by blast
  have idle: "\<not> b" if "\<not> is_monitoring s"
    using that b s1(2) by (simp add: reconfig_needed_def)
  have upd: "update_settings f new_settings s =
               (Inr True, if b then snd (stop_monitoring f s1) else s1)"
    using b by (simp add: update_settings_eq s1_def s0_def Let_def)
  have logged: "ErrorExn ''Failed to save settings'' OSError
                  \<in> set (logger (snd (stop_monitoring f s1)))"
    using s1(3)
    by (simp add: stop_defs action_defs log_defs Let_def split: option.splits)
  show ?thesis
    using upd idle s1 logged
    by (simp add: Let_def stop_monitoring_settings stop_monitoring_frame)
qed

theorem update_settings_save_failure_witness:
  "save_fault save_fails \<noteq> SaveOk \<and> fully_populated (settings fresh) \<and>
   fst (update_settings save_fails (Map.empty(''max_latency'' \<mapsto> PInt 50)) fresh) = Inr True \<and>
   settings (snd (update_settings save_fails (Map.empty(''max_latency'' \<mapsto> PInt 50)) fresh))
     ''max_latency'' = Some (PInt 50) \<and>
   ErrorExn ''Failed to save settings'' OSError
     \<in> set (logger (snd (update_settings save_fails (Map.empty(''max_latency'' \<mapsto> PInt 50)) fresh)))"
proof -
  have h1: "save_fault save_fails \<noteq> SaveOk"
    by (simp add: save_fails_def no_faults_def)
  have h2: "fully_populated (settings fresh)"
    by (simp add: fresh_def init_def default_settings_def fully_populated_def)
  have h3: "\<not> is_monitoring fresh"
    by (simp add: fresh_def init_def)
  show ?thesis
    using h1 h2 h3
      update_settings_save_failure [OF h1 h2, of "Map.empty(''max_latency'' \<mapsto> PInt 50)"]
    by (simp add: Let_def)
qed

text \<open>
  C2. The monitoring is active and only \<^verbatim>\<open>ping_host\<close> changes: \<^verbatim>\<open>update_settings\<close>
  stops the child and does not start one again, although \<^verbatim>\<open>enabled\<close> was true,
  because \<^verbatim>\<open>stop_monitoring\<close> has set \<^verbatim>\<open>enabled\<close> to false before
  \<^verbatim>\<open>update_settings\<close> tests it. Afterwards nothing is monitored and no child lives.
  The second half of the claim holds: when only \<^verbatim>\<open>enabled\<close> changes, from true to
  false, the child is neither stopped nor started.
\<close>

theorem update_ping_host_stops_without_restart:
  "is_monitoring running \<and> live running = {0} \<and>
   settings running ''enabled'' = Some (PBool True) \<and>
   fst (update_settings no_faults (Map.empty(''ping_host'' \<mapsto> PStr ''1.1.1.1'')) running)
     = Inr True \<and>
   \<not> is_monitoring
       (snd (update_settings no_faults (Map.empty(''ping_host'' \<mapsto> PStr ''1.1.1.1'')) running)) \<and>
   live (snd (update_settings no_faults (Map.empty(''ping_host'' \<mapsto> PStr ''1.1.1.1'')) running))
     = {} \<and>
   script_process
       (snd (update_settings no_faults (Map.empty(''ping_host'' \<mapsto> PStr ''1.1.1.1'')) running))
     = None \<and>
   proc_ops (snd (update_settings no_faults (Map.empty(''ping_host'' \<mapsto> PStr ''1.1.1.1'')) running))
     = [Spawn 0 0, Terminate 0, Wait 0] \<and>
   events (snd (update_settings no_faults (Map.empty(''ping_host'' \<mapsto> PStr ''1.1.1.1'')) running))
     = [WifiStatusChanged True, WifiStatusChanged False] \<and>
   settings (snd (update_settings no_faults (Map.empty(''ping_host'' \<mapsto> PStr ''1.1.1.1'')) running))
     ''enabled'' = Some (PBool False) \<and>
   is_monitoring
       (snd (update_settings no_faults (Map.empty(''enabled'' \<mapsto> PBool False)) running)) \<and>
   proc_ops (snd (update_settings no_faults (Map.empty(''enabled'' \<mapsto> PBool False)) running))
     = [Spawn 0 0]"
  by (simp add: running_eq update_settings_eq save_settings_eq reconfig_needed_def changed_def
        getitem_def fresh_def init_def default_settings_def no_faults_def stop_defs
        action_defs log_defs Let_def)

text \<open>The same for every state, every input and every fault: \<^verbatim>\<open>update_settings\<close>
  never spawns a child.\<close>

lemma update_settings_never_spawns:
  "spawned (snd (update_settings f new_settings s)) = spawned s"
  by (simp add: update_settings_eq save_settings_eq log_defs Let_def stop_monitoring_frame
        split: sum.splits save_fault.splits)

section \<open>The output parser\<close>

subsection \<open>Matching\<close>

lemma starts_with_append: "starts_with p (p @ r)"
  by (induction p) simp_all

lemma contains_at_start: "starts_with sub s \<Longrightarrow> contains sub s"
  by (cases s; cases sub) simp_all

lemma contains_hd:
  assumes "contains sub s" and "sub \<noteq> []"
  shows "hd sub \<in> set s"
  using assms
proof (induction s)
  case Nil
  then show ?case by simp
next
  case (Cons c cs)
  then show ?case by (cases sub) auto
qed

lemma re_search_at_start: "match_at lit s = Some g \<Longrightarrow> re_search lit s = Some g"
  by (cases s) simp_all

lemma match_at_literal: "match_at lit (lit @ r) = match_number r"
  by (simp add: match_at_def starts_with_append)

lemma digits_then_other:
  assumes "list_all is_digit ds" and "\<not> is_digit c"
  shows "takeWhile is_digit (ds @ c # r) = ds" and "dropWhile is_digit (ds @ c # r) = c # r"
  using assms by (induction ds) simp_all

lemma not_digit: "\<not> is_digit CHR ''m''" "\<not> is_digit CHR ''.''"
  by (simp_all add: is_digit_def)

lemma match_number_integer:
  assumes "unsigned_integer ds"
  shows "match_number (ds @ ''ms)'' @ r) = Some ds"
proof -
  from assms have ds: "ds \<noteq> []" "list_all is_digit ds"
    by (simp_all add: unsigned_integer_def)
  have "takeWhile is_digit (ds @ CHR ''m'' # ''s)'' @ r) = ds"
    and "dropWhile is_digit (ds @ CHR ''m'' # ''s)'' @ r) = CHR ''m'' # ''s)'' @ r"
    using digits_then_other [OF ds(2) not_digit(1)] by blast+
  with ds(1) show ?thesis
    by (simp add: match_number_def Let_def)
qed

lemma match_number_decimal:
  assumes "unsigned_integer ds" and "unsigned_integer fs"
  shows "match_number (ds @ ''.'' @ fs @ ''ms)'' @ r) = Some (ds @ ''.'' @ fs)"
proof -
  from assms have ds: "ds \<noteq> []" "list_all is_digit ds" and fs: "fs \<noteq> []" "list_all is_digit fs"
    by (simp_all add: unsigned_integer_def)
  have a: "takeWhile is_digit (ds @ CHR ''.'' # fs @ ''ms)'' @ r) = ds"
    and b: "dropWhile is_digit (ds @ CHR ''.'' # fs @ ''ms)'' @ r) = CHR ''.'' # fs @ ''ms)'' @ r"
    using digits_then_other [OF ds(2) not_digit(2)] by blast+
  have c: "takeWhile is_digit (fs @ CHR ''m'' # ''s)'' @ r) = fs"
    and d: "dropWhile is_digit (fs @ CHR ''m'' # ''s)'' @ r) = CHR ''m'' # ''s)'' @ r"
    using digits_then_other [OF fs(2) not_digit(1)] by blast+
  show ?thesis
    using a b c d ds(1) fs(1) by (simp add: match_number_def Let_def)
qed

text \<open>A latency as the claim has it: digits, or digits, a point and digits.\<close>

lemma search_latency:
  assumes "unsigned_integer ds"
    and "num = ds \<or> (\<exists>fs. unsigned_integer fs \<and> num = ds @ ''.'' @ fs)"
  shows "re_search lit (lit @ num @ ''ms)'') = Some num"
proof -
  have "match_number (num @ ''ms)'') = Some num"
  proof (cases "num = ds")
    case True
    then show ?thesis
      using match_number_integer [OF assms(1), of "[]"] by simp
  next
    case False
    with assms(2) obtain fs where fs: "unsigned_integer fs" "num = ds @ ''.'' @ fs"
      by blast
    then show ?thesis
      using match_number_decimal [OF assms(1) fs(1), of "[]"] by simp
  qed
  then show ?thesis
    by (intro re_search_at_start) (simp add: match_at_literal)
qed

lemma latency_chars:
  assumes "unsigned_integer ds"
    and "num = ds \<or> (\<exists>fs. unsigned_integer fs \<and> num = ds @ ''.'' @ fs)"
    and "\<not> is_digit c" and "c \<noteq> CHR ''.''"
  shows "c \<notin> set num"
  using assms by (auto simp: unsigned_integer_def list_all_iff)

lemma no_ping_ok_in_high_latency_line:
  assumes "unsigned_integer ds"
    and "num = ds \<or> (\<exists>fs. unsigned_integer fs \<and> num = ds @ ''.'' @ fs)"
  shows "\<not> contains ''Ping OK'' (''High latency detected ('' @ num @ ''ms)'')"
proof
  assume "contains ''Ping OK'' (''High latency detected ('' @ num @ ''ms)'')"
  then have "hd ''Ping OK'' \<in> set (''High latency detected ('' @ num @ ''ms)'')"
    by (rule contains_hd) simp
  then have "CHR ''P'' \<in> set num"
    by simp
  moreover have "\<not> is_digit CHR ''P''"
    by (simp add: is_digit_def)
  ultimately show False
    using latency_chars [OF assms, of "CHR ''P''"] by simp
qed

subsection \<open>What a parsed line changes\<close>

lemma parse_script_output_frame:
  "is_monitoring (parse_script_output now line s) = is_monitoring s"
  "script_process (parse_script_output now line s) = script_process s"
  "settings (parse_script_output now line s) = settings s"
  "settings_file (parse_script_output now line s) = settings_file s"
  "live (parse_script_output now line s) = live s"
  "spawned (parse_script_output now line s) = spawned s"
  "proc_ops (parse_script_output now line s) = proc_ops s"
  by (simp_all add: parse_script_output_def log_defs Let_def split: option.splits)

lemma parse_script_output_events:
  "\<exists>evs. events (parse_script_output now line s) = events s @ evs \<and> list_all parser_event evs"
  by (simp add: parse_script_output_def log_defs Let_def split: option.splits)

lemma parse_script_output_restart_count:
  "restart_count s \<le> restart_count (parse_script_output now line s)"
  by (simp add: parse_script_output_def log_defs Let_def split: option.splits)

lemma parse_marker_without_number:
  assumes "contains ''Ping OK'' line \<and> re_search ''Ping OK ('' line = None \<or>
           \<not> contains ''Ping OK'' line \<and> contains ''High latency detected'' line \<and>
             re_search ''High latency detected ('' line = None"
  shows "parse_script_output now line s = s"
  using assms by (auto simp: parse_script_output_def)

text \<open>
  C6. A line \<open>Ping OK (Nms)\<close> or \<open>High latency detected (Nms)\<close>, where \<open>N\<close> is
  a run of digits or two runs of digits with a point between, replaces \<open>last_status\<close>
  by the latency \<^verbatim>\<open>float(N)\<close>, the status \<open>ok\<close> or \<open>high\<close> and the current
  time, and emits one \<open>ping_result\<close> with that status. A line that holds one of the two
  markers and no number either pattern matches leaves the state as it is: no new status,
  no event.
\<close>

theorem parse_latency_line:
  "(unsigned_integer ds \<and> (num = ds \<or> (\<exists>fs. unsigned_integer fs \<and> num = ds @ ''.'' @ fs))
      \<longrightarrow>
      parse_script_output now (''Ping OK ('' @ num @ ''ms)'') s =
        s\<lparr>last_status := \<lparr>latency = FloatOf num, status = ''ok'', timestamp = now\<rparr>,
          events := events s @
            [PingResult \<lparr>latency = FloatOf num, status = ''ok'', timestamp = now\<rparr>]\<rparr> \<and>
      parse_script_output now (''High latency detected ('' @ num @ ''ms)'') s =
        s\<lparr>last_status := \<lparr>latency = FloatOf num, status = ''high'', timestamp = now\<rparr>,
          events := events s @
            [PingResult \<lparr>latency = FloatOf num, status = ''high'', timestamp = now\<rparr>]\<rparr>) \<and>
   ((contains ''Ping OK'' line \<or> contains ''High latency detected'' line) \<and>
    re_search ''Ping OK ('' line = None \<and> re_search ''High latency detected ('' line = None
      \<longrightarrow> parse_script_output now line s = s)"
proof (intro conjI impI)
  assume a: "unsigned_integer ds \<and>
    (num = ds \<or> (\<exists>fs. unsigned_integer fs \<and> num = ds @ ''.'' @ fs))"
  then have ds: "unsigned_integer ds"
    and num: "num = ds \<or> (\<exists>fs. unsigned_integer fs \<and> num = ds @ ''.'' @ fs)"
    by blast+
  have ok_marker: "contains ''Ping OK'' (''Ping OK ('' @ num @ ''ms)'')"
    by (rule contains_at_start) simp
  have ok_number: "re_search ''Ping OK ('' (''Ping OK ('' @ num @ ''ms)'') = Some num"
    by (rule search_latency [OF ds num])
  show "parse_script_output now (''Ping OK ('' @ num @ ''ms)'') s =
        s\<lparr>last_status := \<lparr>latency = FloatOf num, status = ''ok'', timestamp = now\<rparr>,
          events := events s @
            [PingResult \<lparr>latency = FloatOf num, status = ''ok'', timestamp = now\<rparr>]\<rparr>"
    unfolding parse_script_output_def using ok_marker ok_number
    by (simp add: log_defs Let_def del: contains.simps re_search.simps append.simps)
  have no_ok: "\<not> contains ''Ping OK'' (''High latency detected ('' @ num @ ''ms)'')"
    by (rule no_ping_ok_in_high_latency_line [OF ds num])
  have high_marker:
    "contains ''High latency detected'' (''High latency detected ('' @ num @ ''ms)'')"
    by (rule contains_at_start) simp
  have high_number:
    "re_search ''High latency detected ('' (''High latency detected ('' @ num @ ''ms)'')
       = Some num"
    by (rule search_latency [OF ds num])
  show "parse_script_output now (''High latency detected ('' @ num @ ''ms)'') s =
        s\<lparr>last_status := \<lparr>latency = FloatOf num, status = ''high'', timestamp = now\<rparr>,
          events := events s @
            [PingResult \<lparr>latency = FloatOf num, status = ''high'', timestamp = now\<rparr>]\<rparr>"
    unfolding parse_script_output_def using no_ok high_marker high_number
    by (simp add: log_defs Let_def del: contains.simps re_search.simps append.simps)
next
  assume "(contains ''Ping OK'' line \<or> contains ''High latency detected'' line) \<and>
    re_search ''Ping OK ('' line = None \<and> re_search ''High latency detected ('' line = None"
  then show "parse_script_output now line s = s"
    by (intro parse_marker_without_number) blast
qed

theorem parse_latency_line_witness:
  "parse_script_output 7 ''Ping OK (42ms)'' fresh =
     fresh\<lparr>last_status := \<lparr>latency = FloatOf ''42'', status = ''ok'', timestamp = 7\<rparr>,
       events := [PingResult \<lparr>latency = FloatOf ''42'', status = ''ok'', timestamp = 7\<rparr>]\<rparr> \<and>
   parse_script_output 7 ''High latency detected (150.5ms)'' fresh =
     fresh\<lparr>last_status := \<lparr>latency = FloatOf ''150.5'', status = ''high'', timestamp = 7\<rparr>,
       events := [PingResult \<lparr>latency = FloatOf ''150.5'', status = ''high'', timestamp = 7\<rparr>]\<rparr> \<and>
   parse_script_output 7 ''Ping OK (fast)'' fresh = fresh"
proof -
  have i: "unsigned_integer ''42''" "unsigned_integer ''150''" "unsigned_integer ''5''"
    by (simp_all add: unsigned_integer_def is_digit_def)
  have d: "\<exists>fs. unsigned_integer fs \<and> ''150.5'' = ''150'' @ ''.'' @ fs"
    using i(3) by (intro exI [of _ "''5''"]) simp
  have m: "contains ''Ping OK'' ''Ping OK (fast)''"
    "re_search ''Ping OK ('' ''Ping OK (fast)'' = None"
    "re_search ''High latency detected ('' ''Ping OK (fast)'' = None"
    by (simp_all add: match_at_def match_number_def is_digit_def)
  have e: "events fresh = []"
    by (simp add: fresh_def init_def)
  show ?thesis
    using parse_latency_line [of "''42''" "''42''" 7 fresh "''Ping OK (fast)''"]
      parse_latency_line [of "''150''" "''150.5''" 7 fresh "''Ping OK (fast)''"] i d m e
    by simp
qed

section \<open>The output-consuming loop\<close>

text \<open>The end of the stream is the child's exit and touches nothing of the plugin.\<close>

lemma end_of_stream_frame:
  "is_monitoring (end_of_stream s) = is_monitoring s"
  "script_process (end_of_stream s) = script_process s"
  "settings (end_of_stream s) = settings s"
  "events (end_of_stream s) = events s"
  "restart_count (end_of_stream s) = restart_count s"
  "spawned (end_of_stream s) = spawned s"
  by (simp_all add: end_of_stream_def split: option.splits)

text \<open>The loop never writes the flag or the handle; the events it adds are the parser's;
  the restart count never goes down.\<close>

lemma monitor_loop_effect:
  "is_monitoring (snd (monitor_loop stream s)) = is_monitoring s \<and>
   script_process (snd (monitor_loop stream s)) = script_process s \<and>
   (\<exists>evs. events (snd (monitor_loop stream s)) = events s @ evs \<and> list_all parser_event evs) \<and>
   restart_count s \<le> restart_count (snd (monitor_loop stream s))"
proof (induction stream s rule: monitor_loop.induct)
  case (1 s)
  then show ?case by (simp add: end_of_stream_frame)
next
  case (2 now r rs s)
  show ?case
  proof (cases "is_monitoring s \<and> script_process s \<noteq> None")
    case False
    then show ?thesis by auto
  next
    case True
    show ?thesis
    proof (cases r)
      case (Line l)
      show ?thesis
      proof (cases "l = []")
        case True
        with Line show ?thesis by (simp add: end_of_stream_frame)
      next
        case False
        define t where "t = log_info (''Script output: '' @ strip l) s"
        define u where "u = parse_script_output now (strip l) t"
        have t: "is_monitoring t = is_monitoring s" "script_process t = script_process s"
          "events t = events s" "restart_count t = restart_count s"
          by (simp_all add: t_def log_defs)
        obtain e1 where e1: "events u = events t @ e1" "list_all parser_event e1"
          using parse_script_output_events [of now "strip l" t] by (auto simp: u_def)
        have u: "is_monitoring u = is_monitoring t" "script_process u = script_process t"
          "restart_count t \<le> restart_count u"
          by (simp_all add: u_def parse_script_output_frame parse_script_output_restart_count)
        have step: "monitor_loop ((now, r) # rs) s = monitor_loop rs u"
          using True Line False by (simp add: u_def t_def)
        from "2.IH" [OF True Line False] obtain e2 where
          ih: "is_monitoring (snd (monitor_loop rs u)) = is_monitoring u"
            "script_process (snd (monitor_loop rs u)) = script_process u"
            "events (snd (monitor_loop rs u)) = events u @ e2" "list_all parser_event e2"
            "restart_count u \<le> restart_count (snd (monitor_loop rs u))"
          unfolding u_def t_def by blast
        have "events (snd (monitor_loop rs u)) = events s @ (e1 @ e2)"
          "list_all parser_event (e1 @ e2)"
          using ih(3,4) e1 t(3) by simp_all
        then have "\<exists>evs. events (snd (monitor_loop rs u)) = events s @ evs \<and>
                     list_all parser_event evs"
          by blast
        then show ?thesis
          using step ih(1,2,5) u t by simp
      qed
    next
      case Undecodable
      then show ?thesis by simp
    next
      case ReadError
      then show ?thesis by simp
    qed
  qed
qed

lemma tryM_logging:
  "tryM m (\<lambda>e. modify (log_exn msg e)) s =
     (case m s of
        (Inl e, t) \<Rightarrow> (Inr (), log_exn msg e t)
      | (Inr x, t) \<Rightarrow> (Inr x, t))"
  by (simp add: action_defs split: prod.splits sum.splits)

lemma monitor_script_output_eq:
  assumes "script_process s \<noteq> None"
  shows "monitor_script_output stream s =
     (Inr (),
      monitor_finally
        (case monitor_loop stream s of
           (Inl e, t) \<Rightarrow> log_exn ''Error monitoring script output'' e t
         | (Inr x, t) \<Rightarrow> t))"
  using assms
  by (auto simp: monitor_script_output_def action_defs split: prod.splits sum.splits)

text \<open>
  C3. The loop runs with the flag set and a child handle, and the child's output ends
  (after any lines, or with a read or decoding error). Then the task ends without an
  exception, the flag is false, and the events it emitted are those of the parser
  followed by one \<open>wifi_status_changed(false)\<close>: that event is emitted exactly once.
\<close>

theorem monitor_surfaces_stream_end:
  assumes "is_monitoring s" and "script_process s \<noteq> None"
  shows "let s' = snd (monitor_script_output stream s) in
     fst (monitor_script_output stream s) = Inr () \<and>
     \<not> is_monitoring s' \<and>
     (\<exists>evs. events s' = events s @ evs @ [WifiStatusChanged False] \<and>
            list_all parser_event evs) \<and>
     count_list (drop (length (events s)) (events s')) (WifiStatusChanged False) = 1"
proof -
  obtain r t where loop: "monitor_loop stream s = (r, t)"
    by (cases "monitor_loop stream s")
  from monitor_loop_effect [of stream s] loop obtain evs where
    t: "is_monitoring t = is_monitoring s" "events t = events s @ evs"
      "list_all parser_event evs"
    by auto
  define u where
    "u = (case r of Inl e \<Rightarrow> log_exn ''Error monitoring script output'' e t | Inr x \<Rightarrow> t)"
  have u: "is_monitoring u" "events u = events s @ evs"
    using t assms(1) by (simp_all add: u_def log_defs split: sum.splits)
  have res: "monitor_script_output stream s = (Inr (), monitor_finally u)"
    using monitor_script_output_eq [OF assms(2), of stream] loop
    by (simp add: u_def split: sum.splits)
  have fin: "\<not> is_monitoring (monitor_finally u)"
    "events (monitor_finally u) = events s @ evs @ [WifiStatusChanged False]"
    using u by (simp_all add: monitor_finally_def log_defs)
  have "WifiStatusChanged False \<notin> set evs"
    using t(3) by (auto simp: list_all_iff)
  then have "count_list evs (WifiStatusChanged False) = 0"
    by (simp add: count_list_0_iff)
  then have once:
    "count_list (drop (length (events s)) (events (monitor_finally u)))
       (WifiStatusChanged False) = 1"
    using fin(2) by simp
  show ?thesis
    using res fin t(3) once by (simp add: Let_def)
qed

theorem monitor_surfaces_stream_end_witness:
  "is_monitoring running \<and> script_process running \<noteq> None \<and>
   fst (monitor_script_output [(5, Line ''Ping OK (42ms)'')] running) = Inr () \<and>
   \<not> is_monitoring (snd (monitor_script_output [(5, Line ''Ping OK (42ms)'')] running)) \<and>
   count_list
     (drop (length (events running))
        (events (snd (monitor_script_output [(5, Line ''Ping OK (42ms)'')] running))))
     (WifiStatusChanged False) = 1"
proof -
  have h1: "is_monitoring running" and h2: "script_process running \<noteq> None"
    by (simp_all add: running_eq)
  show ?thesis
    using h1 h2 monitor_surfaces_stream_end [OF h1 h2, of "[(5, Line ''Ping OK (42ms)'')]"]
    by (simp add: Let_def)
qed

section \<open>Starting\<close>

lemma create_configured_script_cases:
  "(\<exists>c. create_configured_script f s =
          (Inr (length (temp_files s)), s\<lparr>temp_files := temp_files s @ [c]\<rparr>)) \<or>
   (\<exists>e. create_configured_script f s =
          (Inl e, log_exn ''Failed to create configured script'' e s))"
  by (auto simp: create_configured_script_def action_defs getitem_def Let_def
        split: option.splits)

text \<open>A start from a state that is not monitoring either succeeds, with one new child,
  or fails and leaves the plugin's own attributes as they were.\<close>

lemma start_monitoring_cases:
  assumes "\<not> is_monitoring s"
  shows
    "(\<exists>c. start_monitoring f s =
        (Inr True,
         s\<lparr>script_process := Some (spawned s), is_monitoring := True,
           settings := (settings s)(''enabled'' \<mapsto> PBool True),
           temp_files := temp_files s @ [c],
           live := insert (spawned s) (live s), spawned := Suc (spawned s),
           proc_ops := proc_ops s @ [Spawn (spawned s) (length (temp_files s))],
           monitor_tasks := Suc (monitor_tasks s),
           events := events s @ [WifiStatusChanged True],
           logger := logger s @ [Info ''Wi-Fi monitoring script started'']\<rparr>)) \<or>
     (\<exists>t l. start_monitoring f s = (Inr False, s\<lparr>temp_files := t, logger := l\<rparr>))"
proof -
  consider (ok) c where "create_configured_script f s =
        (Inr (length (temp_files s)), s\<lparr>temp_files := temp_files s @ [c]\<rparr>)"
    | (err) e where "create_configured_script f s =
        (Inl e, log_exn ''Failed to create configured script'' e s)"
    using create_configured_script_cases [of f s] by blast
  then show ?thesis
  proof cases
    case ok
    show ?thesis
    proof (cases "spawn_fault f")
      case True
      have "start_monitoring f s =
              (Inr False,
               s\<lparr>temp_files := temp_files s @ [c],
                 logger := logger s @ [ErrorExn ''Failed to start monitoring script'' OSError]\<rparr>)"
        using assms ok True
        by (simp add: start_monitoring_def create_subprocess_exec_def action_defs log_defs)
      then show ?thesis by blast
    next
      case False
      have "start_monitoring f s =
        (Inr True,
         s\<lparr>script_process := Some (spawned s), is_monitoring := True,
           settings := (settings s)(''enabled'' \<mapsto> PBool True),
           temp_files := temp_files s @ [c],
           live := insert (spawned s) (live s), spawned := Suc (spawned s),
           proc_ops := proc_ops s @ [Spawn (spawned s) (length (temp_files s))],
           monitor_tasks := Suc (monitor_tasks s),
           events := events s @ [WifiStatusChanged True],
           logger := logger s @ [Info ''Wi-Fi monitoring script started'']\<rparr>)"
        using assms ok False
        by (simp add: start_monitoring_def create_subprocess_exec_def action_defs log_defs)
      then show ?thesis by blast
    qed
  next
    case err
    have "start_monitoring f s =
            (Inr False,
             s\<lparr>temp_files := temp_files s,
               logger := logger s @ [ErrorExn ''Failed to create configured script'' e,
                                     ErrorExn ''Failed to start monitoring script'' e]\<rparr>)"
      using assms err
      by (simp add: start_monitoring_def action_defs log_defs)
    then show ?thesis by blast
  qed
qed

lemma start_monitoring_frame:
  "restart_count (snd (start_monitoring f s)) = restart_count s"
  "last_status (snd (start_monitoring f s)) = last_status s"
  "settings_file (snd (start_monitoring f s)) = settings_file s"
proof -
  have "restart_count (snd (start_monitoring f s)) = restart_count s \<and>
        last_status (snd (start_monitoring f s)) = last_status s \<and>
        settings_file (snd (start_monitoring f s)) = settings_file s"
  proof (cases "is_monitoring s")
    case True
    then show ?thesis by (simp add: start_monitoring_def)
  next
    case False
    from start_monitoring_cases [OF False, of f] show ?thesis by auto
  qed
  then show "restart_count (snd (start_monitoring f s)) = restart_count s"
    "last_status (snd (start_monitoring f s)) = last_status s"
    "settings_file (snd (start_monitoring f s)) = settings_file s"
    by simp_all
qed

lemma start_monitoring_settings:
  "settings (snd (start_monitoring f s)) = settings s \<or>
   settings (snd (start_monitoring f s)) = (settings s)(''enabled'' \<mapsto> PBool True)"
proof (cases "is_monitoring s")
  case True
  then show ?thesis by (simp add: start_monitoring_def)
next
  case False
  from start_monitoring_cases [OF False, of f] show ?thesis by auto
qed

text \<open>When a start succeeds: monitoring was active already, or the script is there, the
  settings hold the three keys written into the copy, and neither the copy nor the spawn
  fails.\<close>

lemma start_monitoring_succeeds_iff:
  "fst (start_monitoring f s) = Inr True \<longleftrightarrow>
     is_monitoring s \<or>
     (script_file s \<noteq> None \<and> settings s ''max_latency'' \<noteq> None \<and>
      settings s ''check_interval'' \<noteq> None \<and> settings s ''ping_host'' \<noteq> None \<and>
      \<not> temp_fault f \<and> \<not> spawn_fault f)"
proof (cases "is_monitoring s")
  case True
  then show ?thesis by (simp add: start_monitoring_def)
next
  case False
  then show ?thesis
    by (auto simp: start_monitoring_def create_configured_script_def
          create_subprocess_exec_def action_defs log_defs getitem_def Let_def
          split: option.splits)
qed

text \<open>
  C4, as the claim states it, fails, in two ways. A start can fail: in a new plugin
  whose script file is missing, \<^verbatim>\<open>start_monitoring\<close> returns false, both times, and
  no child lives. And two children can live: after the output-consuming task has met a
  line it cannot decode, the flag is cleared while the child still runs, and two calls of
  \<^verbatim>\<open>start_monitoring\<close> return true and leave that child and a new one alive.
\<close>

theorem start_monitoring_twice_failure:
  "fst (start_monitoring no_faults no_script) = Inr False \<and>
   fst (start_monitoring no_faults no_script) \<noteq> Inr True \<and>
   fst (start_monitoring no_faults (snd (start_monitoring no_faults no_script))) = Inr False \<and>
   live (snd (start_monitoring no_faults (snd (start_monitoring no_faults no_script)))) = {} \<and>
   \<not> is_monitoring decode_failed \<and> live decode_failed = {0} \<and>
   fst (start_monitoring no_faults decode_failed) = Inr True \<and>
   fst (start_monitoring no_faults (snd (start_monitoring no_faults decode_failed)))
     = Inr True \<and>
   live (snd (start_monitoring no_faults (snd (start_monitoring no_faults decode_failed))))
     = {0, 1}"
  by (simp add: decode_failed_eq running_eq fresh_def no_script_def init_def
       start_monitoring_def action_defs log_defs
       create_configured_script_def create_subprocess_exec_def getitem_def
       default_settings_def no_faults_def sample_script_def replace_def
       str_int_def dquote_def digits.simps Let_def insert_commute)

text \<open>
  C4, amended. \<^verbatim>\<open>start_monitoring\<close> returns true exactly when monitoring is active
  already, or the script file is there, the settings hold the three keys of the script
  and neither the script copy nor the spawn fails. While monitoring is active a call
  changes nothing. Whenever the first of two calls in a row returns true, the second
  returns true and changes nothing, so the two calls spawn at most one child. If
  monitoring was not active, the first call spawns one child and the handle names it;
  when no child lived before, that child is the one live child afterwards.
\<close>

theorem start_monitoring_twice:
  "(fst (start_monitoring f1 s) = Inr True \<longleftrightarrow>
      is_monitoring s \<or>
      (script_file s \<noteq> None \<and> settings s ''max_latency'' \<noteq> None \<and>
       settings s ''check_interval'' \<noteq> None \<and> settings s ''ping_host'' \<noteq> None \<and>
       \<not> temp_fault f1 \<and> \<not> spawn_fault f1)) \<and>
   (is_monitoring s \<longrightarrow> start_monitoring f1 s = (Inr True, s)) \<and>
   (fst (start_monitoring f1 s) = Inr True \<longrightarrow>
      (let s1 = snd (start_monitoring f1 s) in
       start_monitoring f2 s1 = (Inr True, s1) \<and>
       is_monitoring s1 \<and>
       spawned s1 \<le> Suc (spawned s) \<and>
       (\<not> is_monitoring s \<longrightarrow>
          script_process s1 = Some (spawned s) \<and> spawned s1 = Suc (spawned s) \<and>
          (live s = {} \<longrightarrow> live s1 = {spawned s}))))"
proof (intro conjI impI)
  show "fst (start_monitoring f1 s) = Inr True \<longleftrightarrow>
      is_monitoring s \<or>
      (script_file s \<noteq> None \<and> settings s ''max_latency'' \<noteq> None \<and>
       settings s ''check_interval'' \<noteq> None \<and> settings s ''ping_host'' \<noteq> None \<and>
       \<not> temp_fault f1 \<and> \<not> spawn_fault f1)"
    by (rule start_monitoring_succeeds_iff)
next
  assume "is_monitoring s"
  then show "start_monitoring f1 s = (Inr True, s)"
    by (simp add: start_monitoring_def)
next
  assume ok: "fst (start_monitoring f1 s) = Inr True"
  show "let s1 = snd (start_monitoring f1 s) in
       start_monitoring f2 s1 = (Inr True, s1) \<and>
       is_monitoring s1 \<and>
       spawned s1 \<le> Suc (spawned s) \<and>
       (\<not> is_monitoring s \<longrightarrow>
          script_process s1 = Some (spawned s) \<and> spawned s1 = Suc (spawned s) \<and>
          (live s = {} \<longrightarrow> live s1 = {spawned s}))"
  proof (cases "is_monitoring s")
    case True
    then show ?thesis by (simp add: start_monitoring_def Let_def)
  next
    case False
    from start_monitoring_cases [OF False, of f1] ok obtain c where
      "start_monitoring f1 s =
        (Inr True,
         s\<lparr>script_process := Some (spawned s), is_monitoring := True,
           settings := (settings s)(''enabled'' \<mapsto> PBool True),
           temp_files := temp_files s @ [c],
           live := insert (spawned s) (live s), spawned := Suc (spawned s),
           proc_ops := proc_ops s @ [Spawn (spawned s) (length (temp_files s))],
           monitor_tasks := Suc (monitor_tasks s),
           events := events s @ [WifiStatusChanged True],
           logger := logger s @ [Info ''Wi-Fi monitoring script started'']\<rparr>)"
      by auto
    with False show ?thesis by (simp add: start_monitoring_def Let_def)
  qed
qed

theorem start_monitoring_twice_witness:
  "fst (start_monitoring no_faults fresh) = Inr True \<and>
   fst (start_monitoring no_faults (snd (start_monitoring no_faults fresh))) = Inr True \<and>
   live (snd (start_monitoring no_faults (snd (start_monitoring no_faults fresh)))) = {0} \<and>
   spawned (snd (start_monitoring no_faults (snd (start_monitoring no_faults fresh)))) = 1 \<and>
   fst (start_monitoring spawn_fails fresh) \<noteq> Inr True"
proof -
  have e: "\<not> is_monitoring fresh" "live fresh = {}" "spawned fresh = 0"
    "script_file fresh \<noteq> None" "settings fresh ''max_latency'' \<noteq> None"
    "settings fresh ''check_interval'' \<noteq> None" "settings fresh ''ping_host'' \<noteq> None"
    by (simp_all add: fresh_def init_def default_settings_def)
  have n: "\<not> temp_fault no_faults" "\<not> spawn_fault no_faults" "spawn_fault spawn_fails"
    by (simp_all add: no_faults_def spawn_fails_def)
  show ?thesis
    using e n start_monitoring_twice [of no_faults fresh no_faults]
      start_monitoring_twice [of spawn_fails fresh no_faults]
    by (simp add: Let_def)
qed

section \<open>Facts about every operation\<close>

lemma update_settings_restart_count:
  "restart_count (snd (update_settings f new s)) = restart_count s"
  by (simp add: update_settings_eq save_settings_eq log_defs Let_def stop_monitoring_frame
        split: sum.splits save_fault.splits)

lemma monitor_script_output_restart_count:
  "restart_count s \<le> restart_count (snd (monitor_script_output stream s))"
proof (cases "script_process s")
  case None
  then show ?thesis by (simp add: monitor_script_output_def)
next
  case (Some p)
  obtain r t where loop: "monitor_loop stream s = (r, t)"
    by (cases "monitor_loop stream s")
  with monitor_loop_effect [of stream s] have "restart_count s \<le> restart_count t"
    by simp
  then show ?thesis
    using Some loop
    by (simp add: monitor_script_output_eq monitor_finally_def log_defs split: sum.splits)
qed

lemma snd_bindM_unit: "snd (bindM m (\<lambda>_. returnM ()) s) = snd (m s)"
  by (simp add: action_defs split: prod.splits sum.splits)

lemma bindM_modify: "bindM (modify g) k s = k () (g s)"
  by (simp add: bindM_def modify_def)

lemma bindM_read: "bindM (\<lambda>s. (Inr (v s), s)) k s = k (v s) s"
  by (simp add: bindM_def)

lemma bindM_load_settings: "bindM load_settings k s = k () (snd (load_settings s))"
  by (simp add: bindM_def load_settings_eq)

lemma bindM_save_settings: "bindM (save_settings f) k s = k () (snd (save_settings f s))"
  by (simp add: bindM_def save_settings_eq)

lemma bindM_chmod_script:
  "bindM (chmod_script f) k s =
     (case script_file s of
        Some c \<Rightarrow> if chmod_fault f then (Inl OSError, s) else k () s
      | None \<Rightarrow> k () (log_error ''Script not found'' s))"
  by (simp add: bindM_def chmod_script_def split: option.splits)

lemma bindM_stop_monitoring:
  "bindM (stop_monitoring f) k s =
     k (fst (stop_monitoring f s) = Inr True) (snd (stop_monitoring f s))"
proof -
  obtain b where "fst (stop_monitoring f s) = Inr b"
    using stop_monitoring_returns [of f s] by blast
  then show ?thesis
    by (cases "stop_monitoring f s") (simp add: bindM_def)
qed

text \<open>The state after \<^verbatim>\<open>_main\<close>: it stops at a failing \<^verbatim>\<open>chmod\<close>, else it loads
  the settings and starts the script if they say \<^verbatim>\<open>enabled\<close>.\<close>

lemma main_state:
  "snd (main f s) =
     (let s1 = log_info ''LotusWiFi plugin loaded'' s;
          s2 = (case script_file s of
                  Some c \<Rightarrow> s1
                | None \<Rightarrow> log_error ''Script not found'' s1);
          s3 = snd (load_settings s2)
      in if script_file s \<noteq> None \<and> chmod_fault f then s1
         else if enabled_setting (settings s3) then snd (start_monitoring f s3)
         else s3)"
proof -
  have sf: "script_file (log_info ''LotusWiFi plugin loaded'' s) = script_file s"
    by (simp add: log_defs)
  show ?thesis
    by (cases "script_file s")
       (simp_all add: main_def bindM_modify bindM_chmod_script bindM_load_settings bindM_read
          snd_bindM_unit returnM_def Let_def sf)
qed

lemma unload_state:
  "snd (unload f s) =
     log_info ''LotusWiFi plugin unloaded'' (snd (save_settings f (snd (stop_monitoring f s))))"
  by (simp add: unload_def bindM_stop_monitoring bindM_save_settings modify_def)

lemma uninstall_state:
  "snd (uninstall f s) = log_info ''LotusWiFi plugin uninstalled'' (snd (stop_monitoring f s))"
  by (simp add: uninstall_def bindM_stop_monitoring modify_def)

lemma load_settings_restart_count: "restart_count (snd (load_settings t)) = restart_count t"
  by (simp add: load_settings_eq log_defs split: file_state.splits)

lemma save_settings_restart_count: "restart_count (snd (save_settings f t)) = restart_count t"
  by (simp add: save_settings_eq log_defs split: save_fault.splits)

lemma run_restart_count: "restart_count s \<le> restart_count (run f opn s)"
proof (cases opn)
  case (UpdateSettings new_settings)
  then show ?thesis by (simp add: update_settings_restart_count)
next
  case (MonitorScriptOutput stream)
  then show ?thesis by (simp add: monitor_script_output_restart_count)
next
  case (ParseScriptOutput now line)
  then show ?thesis by (simp add: parse_script_output_restart_count)
next
  case PluginMain
  then show ?thesis
    by (simp add: main_state Let_def log_defs load_settings_restart_count
          start_monitoring_frame split: option.splits)
next
  case Unload
  then show ?thesis
    by (simp add: unload_state log_defs save_settings_restart_count stop_monitoring_frame)
next
  case Uninstall
  then show ?thesis
    by (simp add: uninstall_state log_defs stop_monitoring_frame)
qed (simp_all add: get_settings_def get_status_def start_monitoring_frame
       stop_monitoring_frame load_settings_restart_count save_settings_restart_count
       migration_def modify_def log_defs)

lemma run_all_restart_count: "restart_count s \<le> restart_count (run_all ops s)"
proof (induction ops arbitrary: s)
  case Nil
  then show ?case by simp
next
  case (Cons x ops)
  obtain f opn where x: "x = (f, opn)"
    by (cases x)
  have "restart_count s \<le> restart_count (run f opn s)"
    by (rule run_restart_count)
  also have "\<dots> \<le> restart_count (run_all ops (run f opn s))"
    by (rule Cons.IH)
  finally show ?case
    using x by simp
qed

text \<open>
  C7, as the claim states it, fails: the markers are tested in the order of the
  \<^verbatim>\<open>if\<close>/\<^verbatim>\<open>elif\<close> chain, and a line that holds \<open>High latency detected\<close> (or
  \<open>Ping OK\<close>) is taken by that branch even when it holds \<open>Restarting Wi-Fi\<close> too.
  Such a line leaves \<open>restart_count\<close> as it was and emits no \<open>wifi_restarted\<close>.
\<close>

theorem restarting_line_with_latency_marker:
  "contains ''Restarting Wi-Fi'' ''High latency detected (150ms). Restarting Wi-Fi...'' \<and>
   restart_count
     (parse_script_output 7 ''High latency detected (150ms). Restarting Wi-Fi...'' fresh)
     = restart_count fresh \<and>
   restart_count
     (parse_script_output 7 ''High latency detected (150ms). Restarting Wi-Fi...'' fresh)
     \<noteq> restart_count fresh + 1 \<and>
   events
     (parse_script_output 7 ''High latency detected (150ms). Restarting Wi-Fi...'' fresh)
     = [PingResult \<lparr>latency = FloatOf ''150'', status = ''high'', timestamp = 7\<rparr>]"
  by (simp add: parse_script_output_def match_at_def match_number_def is_digit_def log_defs
        fresh_def init_def Let_def)

text \<open>
  C7, amended. No operation of the supervisor, and no sequence of them, lowers
  \<open>restart_count\<close>. A line that holds \<open>Restarting Wi-Fi\<close> and neither \<open>Ping OK\<close>
  nor \<open>High latency detected\<close> raises it by exactly one and emits \<open>wifi_restarted\<close>
  with the new count, and changes nothing else.
\<close>

theorem restart_count_monotone_and_counted:
  "restart_count s \<le> restart_count (run f opn s) \<and>
   restart_count s \<le> restart_count (run_all ops s) \<and>
   (contains ''Restarting Wi-Fi'' line \<and> \<not> contains ''Ping OK'' line \<and>
    \<not> contains ''High latency detected'' line \<longrightarrow>
      parse_script_output now line s =
        s\<lparr>restart_count := restart_count s + 1,
          events := events s @
            [WifiRestarted (restart_count s + 1) ''High latency detected'']\<rparr>)"
  by (simp add: run_restart_count run_all_restart_count parse_script_output_def log_defs
        Let_def)

theorem restart_count_monotone_and_counted_witness:
  "restart_count running \<le>
     restart_count
       (run no_faults (UpdateSettings (Map.empty(''ping_host'' \<mapsto> PStr ''1.1.1.1'')))
          running) \<and>
   restart_count running \<le> restart_count (run_all [(no_faults, StopMonitoring)] running) \<and>
   parse_script_output 7 ''Restarting Wi-Fi...'' running =
     running\<lparr>restart_count := 1,
       events := [WifiStatusChanged True, WifiRestarted 1 ''High latency detected'']\<rparr>"
proof -
  have m: "contains ''Restarting Wi-Fi'' ''Restarting Wi-Fi...''"
    "\<not> contains ''Ping OK'' ''Restarting Wi-Fi...''"
    "\<not> contains ''High latency detected'' ''Restarting Wi-Fi...''"
    by simp_all
  have r: "restart_count running = 0" "events running = [WifiStatusChanged True]"
    by (simp_all add: running_eq fresh_def init_def)
  show ?thesis
    using restart_count_monotone_and_counted
      [of running no_faults "UpdateSettings (Map.empty(''ping_host'' \<mapsto> PStr ''1.1.1.1''))"
        "[(no_faults, StopMonitoring)]" "''Restarting Wi-Fi...''" 7] m r
    by simp
qed

section \<open>The settings are always fully populated\<close>

lemma fully_populated_default: "fully_populated default_settings"
  by (simp add: fully_populated_def default_settings_def)

lemma fully_populated_map_add: "fully_populated d \<Longrightarrow> fully_populated (d ++ m)"
  by (auto simp: fully_populated_def)

lemma fully_populated_upd: "fully_populated d \<Longrightarrow> fully_populated (d(k \<mapsto> v))"
  by (simp add: fully_populated_def)

lemma monitor_loop_settings: "settings (snd (monitor_loop stream s)) = settings s"
proof (induction stream s rule: monitor_loop.induct)
  case (1 s)
  then show ?case by (simp add: end_of_stream_frame)
next
  case (2 now r rs s)
  show ?case
  proof (cases "is_monitoring s \<and> script_process s \<noteq> None")
    case False
    then show ?thesis by auto
  next
    case True
    show ?thesis
    proof (cases r)
      case (Line l)
      show ?thesis
      proof (cases "l = []")
        case True
        with Line show ?thesis by (simp add: end_of_stream_frame)
      next
        case False
        have "settings (snd (monitor_loop ((now, r) # rs) s)) =
              settings (parse_script_output now (strip l)
                          (log_info (''Script output: '' @ strip l) s))"
          using "2.IH" [OF True Line False] True Line False by simp
        then show ?thesis
          by (simp add: parse_script_output_frame log_defs)
      qed
    qed (use True in simp_all)
  qed
qed

lemma monitor_script_output_settings:
  "settings (snd (monitor_script_output stream s)) = settings s"
proof (cases "script_process s")
  case None
  then show ?thesis by (simp add: monitor_script_output_def)
next
  case (Some p)
  obtain r t where loop: "monitor_loop stream s = (r, t)"
    by (cases "monitor_loop stream s")
  with monitor_loop_settings [of stream s] have "settings t = settings s"
    by simp
  then show ?thesis
    using Some loop
    by (simp add: monitor_script_output_eq monitor_finally_def log_defs split: sum.splits)
qed

lemma start_monitoring_fully_populated:
  "fully_populated (settings s) \<Longrightarrow> fully_populated (settings (snd (start_monitoring f s)))"
  using start_monitoring_settings [of f s] by (auto simp: fully_populated_upd)

lemma load_settings_fully_populated:
  "fully_populated (settings s) \<Longrightarrow> fully_populated (settings (snd (load_settings s)))"
  by (simp add: load_settings_eq log_defs fully_populated_map_add split: file_state.splits)

lemma save_settings_settings: "settings (snd (save_settings f s)) = settings s"
  by (simp add: save_settings_eq log_defs split: save_fault.splits)

lemma update_settings_fully_populated:
  assumes "fully_populated (settings s)"
  shows "fully_populated (settings (snd (update_settings f new s)))"
proof -
  define s1 where "s1 = snd (save_settings f (s\<lparr>settings := settings s ++ new\<rparr>))"
  have s1: "fully_populated (settings s1)"
    using assms by (simp add: s1_def save_settings_settings fully_populated_map_add)
  then have "fully_populated (settings (snd (stop_monitoring f s1)))"
    by (simp add: stop_monitoring_settings fully_populated_upd)
  with s1 show ?thesis
    by (simp add: update_settings_eq s1_def [symmetric] Let_def log_defs split: sum.splits)
qed

lemma run_fully_populated:
  assumes "fully_populated (settings s)"
  shows "fully_populated (settings (run f opn s))"
proof (cases opn)
  case (UpdateSettings new_settings)
  then show ?thesis using assms by (simp add: update_settings_fully_populated)
next
  case StartMonitoring
  then show ?thesis using assms by (simp add: start_monitoring_fully_populated)
next
  case PluginMain
  have "fully_populated (settings (snd (load_settings t)))"
    "fully_populated (settings (snd (start_monitoring f (snd (load_settings t)))))"
    if "settings t = settings s" for t
    using that assms load_settings_fully_populated [of t]
      start_monitoring_fully_populated [of "snd (load_settings t)" f]
    by simp_all
  then show ?thesis
    using PluginMain assms
    by (simp add: main_state Let_def log_defs split: option.splits)
next
  case Unload
  then show ?thesis
    using assms
    by (simp add: unload_state log_defs save_settings_settings stop_monitoring_settings
          fully_populated_upd)
next
  case Uninstall
  then show ?thesis
    using assms
    by (simp add: uninstall_state log_defs stop_monitoring_settings fully_populated_upd)
qed (use assms in \<open>simp_all add: get_settings_def get_status_def stop_monitoring_settings
       fully_populated_upd monitor_script_output_settings parse_script_output_frame
       load_settings_fully_populated save_settings_settings migration_def modify_def
       log_defs\<close>)

text \<open>Every state a new plugin can reach by its operations holds the four keys.\<close>

lemma reachable_fully_populated:
  "fully_populated (settings (run_all ops (init file script)))"
proof -
  have "fully_populated (settings s) \<Longrightarrow> fully_populated (settings (run_all ops s))" for s
  proof (induction ops arbitrary: s)
    case Nil
    then show ?case by simp
  next
    case (Cons x ops)
    obtain f opn where x: "x = (f, opn)"
      by (cases x)
    from Cons.prems have "fully_populated (settings (run f opn s))"
      by (rule run_fully_populated)
    then have "fully_populated (settings (run_all ops (run f opn s)))"
      by (rule Cons.IH)
    then show ?case
      using x by simp
  qed
  moreover have "fully_populated (settings (init file script))"
    by (simp add: init_def fully_populated_default)
  ultimately show ?thesis .
qed

section \<open>Saving and loading the settings\<close>

lemma map_add_same: "m ++ m = m"
  by (rule ext) (simp add: map_add_def split: option.splits)

lemma default_onto_populated:
  assumes "fully_populated m"
  shows "default_settings ++ m = m"
proof
  fix k
  show "(default_settings ++ m) k = m k"
  proof (cases "m k")
    case None
    with assms have "k \<noteq> ''max_latency''" "k \<noteq> ''check_interval''" "k \<noteq> ''ping_host''"
      "k \<noteq> ''enabled''"
      by (auto simp: fully_populated_def)
    then have "default_settings k = None"
      by (simp add: default_settings_def)
    with None show ?thesis
      by (simp add: map_add_def)
  next
    case (Some v)
    then show ?thesis
      by (simp add: map_add_def)
  qed
qed

text \<open>
  C8. When the write succeeds, loading what was saved gives back the settings that were
  saved: in the plugin that saved them, and, for settings that hold the four keys (as
  they always do), in a new plugin that finds the file. Loading when there is no file
  changes nothing, so a new plugin keeps the defaults \<open>max_latency = 100\<close>,
  \<open>check_interval = 10\<close>, \<open>ping_host = 8.8.8.8\<close> and \<open>enabled = False\<close>.
  What \<^verbatim>\<open>json.dump\<close> writes and \<^verbatim>\<open>json.load\<close> reads back is taken to be the
  dict itself.
\<close>

theorem settings_round_trip:
  "(save_fault f = SaveOk \<longrightarrow>
      settings_file (snd (save_settings f s)) = Stored (settings s) \<and>
      settings (snd (load_settings (snd (save_settings f s)))) = settings s \<and>
      (fully_populated (settings s) \<longrightarrow>
         settings (snd (load_settings (init (settings_file (snd (save_settings f s))) script)))
           = settings s)) \<and>
   (settings_file t = Missing \<longrightarrow> load_settings t = (Inr (), t)) \<and>
   settings (snd (load_settings (init Missing script))) = default_settings \<and>
   default_settings ''max_latency'' = Some (PInt 100) \<and>
   default_settings ''check_interval'' = Some (PInt 10) \<and>
   default_settings ''ping_host'' = Some (PStr ''8.8.8.8'') \<and>
   default_settings ''enabled'' = Some (PBool False) \<and>
   dom default_settings = {''max_latency'', ''check_interval'', ''ping_host'', ''enabled''}"
proof -
  have same: "settings (snd (load_settings (snd (save_settings f s)))) = settings s"
    and stored: "settings_file (snd (save_settings f s)) = Stored (settings s)"
    if "save_fault f = SaveOk"
    using that by (simp_all add: save_settings_eq load_settings_eq map_add_same)
  have new: "settings (snd (load_settings (init (settings_file (snd (save_settings f s))) script)))
               = settings s"
    if "save_fault f = SaveOk" and "fully_populated (settings s)"
    using that by (simp add: save_settings_eq load_settings_eq init_def default_onto_populated)
  have missing: "load_settings t = (Inr (), t)" if "settings_file t = Missing"
    using that by (simp add: load_settings_eq)
  have fresh: "settings (snd (load_settings (init Missing script))) = default_settings"
    by (simp add: load_settings_eq init_def)
  have defaults: "default_settings ''max_latency'' = Some (PInt 100)"
    "default_settings ''check_interval'' = Some (PInt 10)"
    "default_settings ''ping_host'' = Some (PStr ''8.8.8.8'')"
    "default_settings ''enabled'' = Some (PBool False)"
    "dom default_settings = {''max_latency'', ''check_interval'', ''ping_host'', ''enabled''}"
    by (auto simp: default_settings_def)
  show ?thesis
    using same stored new missing fresh defaults by blast
qed

theorem settings_round_trip_witness:
  "save_fault no_faults = SaveOk \<and> fully_populated (settings running) \<and>
   settings (snd (load_settings (snd (save_settings no_faults running)))) = settings running \<and>
   settings
     (snd (load_settings (init (settings_file (snd (save_settings no_faults running))) None)))
     = settings running \<and>
   settings_file fresh = Missing \<and> load_settings fresh = (Inr (), fresh)"
proof -
  have h1: "save_fault no_faults = SaveOk"
    by (simp add: no_faults_def)
  have h2: "fully_populated (settings running)"
    by (simp add: running_eq fully_populated_def default_settings_def)
  have h3: "settings_file fresh = Missing"
    by (simp add: fresh_def init_def)
  show ?thesis
    using h1 h2 h3 settings_round_trip [of no_faults running None fresh]
    by blast
qed

section \<open>A change that touches none of the three reconfiguration fields\<close>

text \<open>
  With the monitoring active or not, a map that sets none of \<^verbatim>\<open>max_latency\<close>,
  \<^verbatim>\<open>check_interval\<close> and \<^verbatim>\<open>ping_host\<close> (a change of \<^verbatim>\<open>enabled\<close> alone, say)
  is merged and saved and nothing else happens: the child is neither stopped nor started.
\<close>

lemma update_settings_without_reconfig:
  assumes "fully_populated (settings s)"
    and "new ''max_latency'' = None" and "new ''check_interval'' = None"
    and "new ''ping_host'' = None"
  shows "update_settings f new s =
           (Inr True, snd (save_settings f (s\<lparr>settings := settings s ++ new\<rparr>)))"
proof -
  define s1 where "s1 = snd (save_settings f (s\<lparr>settings := settings s ++ new\<rparr>))"
  have s1: "settings s1 = settings s ++ new"
    by (simp add: s1_def save_settings_settings)
  from assms(1) have k: "settings s ''max_latency'' \<noteq> None"
    "settings s ''check_interval'' \<noteq> None" "settings s ''ping_host'' \<noteq> None"
    by (simp_all add: fully_populated_def)
  have "changed (settings s) (settings s ++ new) ''max_latency'' = Inr False"
    "changed (settings s) (settings s ++ new) ''check_interval'' = Inr False"
    "changed (settings s) (settings s ++ new) ''ping_host'' = Inr False"
    using k assms(2-4) by (simp_all add: changed_unchanged)
  then have "fst (reconfig_needed (settings s) s1) = Inr False"
    using s1 by (simp add: reconfig_needed_def)
  then show ?thesis
    by (simp add: update_settings_eq s1_def [symmetric] Let_def)
qed

end
